theory Spec2Isabelle
  imports Main "HOL-Library.AList" "HOL-Library.Sublist"
begin

section \<open>JavaScript values and exceptions\<close>

text \<open>
  The job in \<^verbatim>\<open>src/jobs/taskcluster_graph.js\<close> works on whatever the YAML loader returns:
  untyped JavaScript values. They are modelled by one datatype. An object is an association
  list (insertion order kept, as in JavaScript); an array carries its elements and, second,
  the named properties that an assignment such as \<^verbatim>\<open>arr.scopes = ...\<close> puts on it
  (the loader itself never produces any). Numbers are the integers; non-integral YAML
  numbers are not represented. Objects are modelled by value: two entries of one rendered
  graph never alias each other.
\<close>

datatype jsval =
    JUndefined
  | JNull
  | JBool bool
  | JNum int
  | JStr string
  | JArr "jsval list" "(string \<times> jsval) list"
  | JObj "(string \<times> jsval) list"

text \<open>
  A thrown value: its \<^verbatim>\<open>message\<close>, what \<^verbatim>\<open>toString()\<close> returns and its
  \<^verbatim>\<open>stack\<close>. The three are independent because library exceptions (the YAML
  loader's) override \<^verbatim>\<open>toString\<close>.
\<close>

datatype error = Exn (message: string) (toString: string) (stack: string)

text \<open>
  \<^verbatim>\<open>new Error(msg)\<close> and the engine's \<^verbatim>\<open>TypeError\<close>: \<^verbatim>\<open>Error.prototype.toString\<close>
  gives the name alone when the message is empty and \<^verbatim>\<open>name + ": " + message\<close> otherwise.
  Of the stack only the header line is modelled, not the frames the engine appends. The
  message texts of engine-raised type errors follow V8's wording.
\<close>

definition mkError :: "string \<Rightarrow> string \<Rightarrow> error" where
  "mkError name msg =
     (let s = (if msg = [] then name else name @ '': '' @ msg) in Exn msg s s)"

definition Error :: "string \<Rightarrow> error" where
  "Error msg = mkError ''Error'' msg"

definition TypeError :: "string \<Rightarrow> error" where
  "TypeError msg = mkError ''TypeError'' msg"

definition bind_err :: "error + 'a \<Rightarrow> ('a \<Rightarrow> error + 'b) \<Rightarrow> error + 'b" where
  "bind_err m f = (case m of Inl e \<Rightarrow> Inl e | Inr x \<Rightarrow> f x)"

fun mapM_err :: "('a \<Rightarrow> error + 'b) \<Rightarrow> 'a list \<Rightarrow> error + 'b list" where
  "mapM_err f [] = Inr []"
| "mapM_err f (x # xs) =
     bind_err (f x) (\<lambda>y. bind_err (mapM_err f xs) (\<lambda>ys. Inr (y # ys)))"

text \<open>Truthiness, as \<^verbatim>\<open>!x\<close>, \<^verbatim>\<open>x || y\<close> and \<^verbatim>\<open>if (x)\<close> test it.\<close>

fun truthy :: "jsval \<Rightarrow> bool" where
  "truthy JUndefined = False"
| "truthy JNull = False"
| "truthy (JBool b) = b"
| "truthy (JNum n) = (n \<noteq> 0)"
| "truthy (JStr s) = (s \<noteq> [])"
| "truthy (JArr xs ps) = True"
| "truthy (JObj ps) = True"

definition lookup :: "(string \<times> jsval) list \<Rightarrow> string \<Rightarrow> jsval" where
  "lookup ps k = (case map_of ps k of None \<Rightarrow> JUndefined | Some v \<Rightarrow> v)"

text \<open>
  Property read \<^verbatim>\<open>v.k\<close>. The names this program reads (\<^verbatim>\<open>version\<close>, \<^verbatim>\<open>tasks\<close>,
  \<^verbatim>\<open>task\<close>, \<^verbatim>\<open>scopes\<close>, \<^verbatim>\<open>payload\<close>, \<^verbatim>\<open>env\<close>) are no built-in property of a
  primitive, an array or \<^verbatim>\<open>Object.prototype\<close>, so a primitive yields
  \<^verbatim>\<open>undefined\<close>. Reading from \<^verbatim>\<open>undefined\<close> or \<^verbatim>\<open>null\<close> throws.
\<close>

fun getp :: "jsval \<Rightarrow> string \<Rightarrow> error + jsval" where
  "getp JUndefined k = Inl (TypeError (''Cannot read property '' @ k @ '' of undefined''))"
| "getp JNull k = Inl (TypeError (''Cannot read property '' @ k @ '' of null''))"
| "getp (JObj ps) k = Inr (lookup ps k)"
| "getp (JArr xs ps) k = Inr (lookup ps k)"
| "getp (JBool b) k = Inr JUndefined"
| "getp (JNum n) k = Inr JUndefined"
| "getp (JStr s) k = Inr JUndefined"

text \<open>Element read \<^verbatim>\<open>v[0]\<close>.\<close>

fun get0 :: "jsval \<Rightarrow> error + jsval" where
  "get0 JUndefined = Inl (TypeError ''Cannot read property 0 of undefined'')"
| "get0 JNull = Inl (TypeError ''Cannot read property 0 of null'')"
| "get0 (JArr xs ps) = Inr (case xs of [] \<Rightarrow> JUndefined | x # _ \<Rightarrow> x)"
| "get0 (JStr s) = Inr (case s of [] \<Rightarrow> JUndefined | c # _ \<Rightarrow> JStr [c])"
| "get0 (JObj ps) = Inr (lookup ps ''0'')"
| "get0 (JBool b) = Inr JUndefined"
| "get0 (JNum n) = Inr JUndefined"

text \<open>
  Property write \<^verbatim>\<open>v.k = x\<close>, in strict mode (the file is an ES module and the code
  sits in a class body): on \<^verbatim>\<open>undefined\<close>, \<^verbatim>\<open>null\<close> and on a primitive it throws.
  The updated container is returned; the caller stores it back where the source mutates
  in place.
\<close>

fun setp :: "jsval \<Rightarrow> string \<Rightarrow> jsval \<Rightarrow> error + jsval" where
  "setp (JObj ps) k x = Inr (JObj (AList.update k x ps))"
| "setp (JArr xs ps) k x = Inr (JArr xs (AList.update k x ps))"
| "setp JUndefined k x = Inl (TypeError (''Cannot set property '' @ k @ '' of undefined''))"
| "setp JNull k x = Inl (TypeError (''Cannot set property '' @ k @ '' of null''))"
| "setp (JBool b) k x = Inl (TypeError (''Cannot create property '' @ k @ '' on boolean''))"
| "setp (JNum n) k x = Inl (TypeError (''Cannot create property '' @ k @ '' on number''))"
| "setp (JStr s) k x = Inl (TypeError (''Cannot create property '' @ k @ '' on string''))"

text \<open>
  Storing a mutated child back into the container it was read from. The child was
  reached through the container, so the container is an object or an array; the other
  cases leave it as it is.
\<close>

fun put :: "jsval \<Rightarrow> string \<Rightarrow> jsval \<Rightarrow> jsval" where
  "put (JObj ps) k x = JObj (AList.update k x ps)"
| "put (JArr xs ps) k x = JArr xs (AList.update k x ps)"
| "put v k x = v"

fun put0 :: "jsval \<Rightarrow> jsval \<Rightarrow> jsval" where
  "put0 (JArr (y # xs) ps) x = JArr (x # xs) ps"
| "put0 (JObj ps) x = JObj (AList.update ''0'' x ps)"
| "put0 v x = v"

fun put_elems :: "jsval \<Rightarrow> jsval list \<Rightarrow> jsval" where
  "put_elems (JArr xs ps) ys = JArr ys ps"
| "put_elems v ys = v"

text \<open>
  \<^verbatim>\<open>for (let task of v)\<close>: an array gives its elements, a string its characters, anything
  else is not iterable.
\<close>

fun iterate :: "jsval \<Rightarrow> error + jsval list" where
  "iterate (JArr xs ps) = Inr xs"
| "iterate (JStr s) = Inr (map (\<lambda>c. JStr [c]) s)"
| "iterate v = Inl (TypeError ''value is not iterable'')"

section \<open>Strings\<close>

text \<open>
  \<^verbatim>\<open>s.indexOf(pat, from)\<close>: the first position at or after \<open>from\<close> where \<open>pat\<close> starts
  (\<open>from\<close> is clamped to the length of \<open>s\<close>); \<open>None\<close> stands for the source's \<open>-1\<close>.
\<close>

fun find_first :: "string \<Rightarrow> string \<Rightarrow> nat option" where
  "find_first pat [] = (if pat = [] then Some 0 else None)"
| "find_first pat (c # cs) =
     (if prefix pat (c # cs) then Some 0 else map_option Suc (find_first pat cs))"

definition indexOf :: "string \<Rightarrow> string \<Rightarrow> nat \<Rightarrow> nat option" where
  "indexOf s pat from =
     map_option (\<lambda>i. i + min from (length s)) (find_first pat (drop from s))"

text \<open>Decimal rendering of a number, as a template literal or \<^verbatim>\<open>String(n)\<close> gives it.\<close>

definition digit_char :: "nat \<Rightarrow> char" where
  "digit_char d = ''0123456789'' ! d"

fun show_nat :: "nat \<Rightarrow> string" where
  "show_nat n =
     (if n < 10 then [digit_char n]
      else show_nat (n div 10) @ [digit_char (n mod 10)])"

definition show_int :: "int \<Rightarrow> string" where
  "show_int i = (if i < 0 then CHR ''-'' # show_nat (nat (- i)) else show_nat (nat i))"

text \<open>\<^verbatim>\<open>Array.prototype.toString\<close> of an array of strings: the elements joined by commas.\<close>

fun join_comma :: "string list \<Rightarrow> string" where
  "join_comma [] = []"
| "join_comma [x] = x"
| "join_comma (x # y # ys) = x @ '','' @ join_comma (y # ys)"

section \<open>Scope union\<close>

text \<open>
  \<^verbatim>\<open>new Set(xs)\<close> followed by \<^verbatim>\<open>Array.from\<close>: elements are inserted in order and an
  element already present (SameValueZero) is skipped. Primitives are compared by value;
  objects and arrays are compared by identity, and distinct entries are distinct objects.
\<close>

fun is_primitive :: "jsval \<Rightarrow> bool" where
  "is_primitive (JArr xs ps) = False"
| "is_primitive (JObj ps) = False"
| "is_primitive v = True"

definition same_value_zero :: "jsval \<Rightarrow> jsval \<Rightarrow> bool" where
  "same_value_zero a b = (is_primitive a \<and> a = b)"

definition set_add :: "jsval list \<Rightarrow> jsval \<Rightarrow> jsval list" where
  "set_add acc x = (if list_ex (\<lambda>y. same_value_zero y x) acc then acc else acc @ [x])"

definition array_from_set :: "jsval list \<Rightarrow> jsval" where
  "array_from_set xs = JArr (foldl set_add [] xs) []"

text \<open>
  Lines 150--152:
  \<^verbatim>\<open>let taskDefinitionScopes = taskDefinition.scopes || [];\<close>
  \<^verbatim>\<open>let taskScopes = new Set(taskDefinitionScopes.concat(scopes));\<close>
  \<^verbatim>\<open>taskDefinition.scopes = Array.from(taskScopes);\<close>
  An array is concatenated with the project scopes. A non-empty string also has a
  \<^verbatim>\<open>concat\<close> method: it appends the comma-joined project scopes, and the set is then
  built from the characters. Any other truthy value has no \<^verbatim>\<open>concat\<close>.
\<close>

definition mergeScopes :: "jsval \<Rightarrow> string list \<Rightarrow> error + jsval" where
  "mergeScopes declared scopes =
     (case (if truthy declared then declared else JArr [] []) of
        JArr xs ps \<Rightarrow> Inr (array_from_set (xs @ map JStr scopes))
      | JStr s \<Rightarrow> Inr (array_from_set (map (\<lambda>c. JStr [c]) (s @ join_comma scopes)))
      | _ \<Rightarrow> Inl (TypeError ''taskDefinitionScopes.concat is not a function''))"

section \<open>The task graph submitter\<close>

text \<open>
  Lines 140--145: an entry \<^verbatim>\<open>{task: <definition>}\<close> is unwrapped, any other entry is the
  definition itself.
\<close>

definition taskDefinitionOf :: "jsval \<Rightarrow> error + jsval" where
  "taskDefinitionOf task =
     bind_err (getp task ''task'') (\<lambda>inner. Inr (if truthy inner then inner else task))"

text \<open>Lines 140--155: the definition handed to \<^verbatim>\<open>createTask\<close> for one entry.\<close>

definition prepareTask :: "jsval \<Rightarrow> string list \<Rightarrow> string \<Rightarrow> error + jsval" where
  "prepareTask task scopes groupId =
     bind_err (taskDefinitionOf task) (\<lambda>taskDefinition.
     bind_err (getp taskDefinition ''scopes'') (\<lambda>declared.
     bind_err (mergeScopes declared scopes) (\<lambda>taskScopes.
     bind_err (setp taskDefinition ''scopes'' taskScopes) (\<lambda>td.
       setp td ''taskGroupId'' (JStr groupId)))))"

text \<open>
  The state of the loop of \<^verbatim>\<open>scheduleTaskGroup\<close>: the variable \<^verbatim>\<open>groupId\<close>
  (\<open>None\<close> while undefined), how many ids \<^verbatim>\<open>slugid.nice()\<close> has handed out, and the
  \<^verbatim>\<open>createTask\<close> calls issued so far, in order, each with its task id and the definition
  it was given. Console output is not modelled.

  The queue client is a parameter. It creates tasks and nothing else; its answer may
  depend on the calls that came before, so \<^verbatim>\<open>createTask\<close> is a function of that
  history: \<open>None\<close> when the promise resolves, \<open>Some e\<close> when it rejects with \<open>e\<close>.
  \<^verbatim>\<open>slugid.nice()\<close> is the parameter \<open>slugid_nice\<close>, the sequence of ids it returns.
\<close>

record sched_state =
  groupId :: "string option"
  nextId :: nat
  calls :: "(string \<times> jsval) list"

type_synonym client = "(string \<times> jsval) list \<Rightarrow> string \<Rightarrow> jsval \<Rightarrow> error option"

definition init_state :: sched_state where
  "init_state = \<lparr>groupId = None, nextId = 0, calls = []\<rparr>"

text \<open>One iteration of the loop, lines 133--170. \<^verbatim>\<open>!groupId\<close> holds for
  \<^verbatim>\<open>undefined\<close> and for the empty string.\<close>

definition processTask ::
  "client \<Rightarrow> (nat \<Rightarrow> string) \<Rightarrow> string list \<Rightarrow> jsval \<Rightarrow> sched_state
     \<Rightarrow> error option \<times> sched_state" where
  "processTask createTask slugid_nice scopes task s =
     (let taskId = slugid_nice (nextId s);
          g = (case groupId s of
                 None \<Rightarrow> taskId
               | Some g0 \<Rightarrow> if g0 = [] then taskId else g0);
          s1 = s\<lparr>groupId := Some g, nextId := Suc (nextId s)\<rparr>
      in case prepareTask task scopes g of
           Inl e \<Rightarrow> (Some e, s1)
         | Inr taskDefinition \<Rightarrow>
             (createTask (calls s1) taskId taskDefinition,
              s1\<lparr>calls := calls s1 @ [(taskId, taskDefinition)]\<rparr>))"

fun submitTasks ::
  "client \<Rightarrow> (nat \<Rightarrow> string) \<Rightarrow> string list \<Rightarrow> jsval list \<Rightarrow> sched_state
     \<Rightarrow> error option \<times> sched_state" where
  "submitTasks createTask slugid_nice scopes [] s = (None, s)"
| "submitTasks createTask slugid_nice scopes (task # tasks) s =
     (case processTask createTask slugid_nice scopes task s of
        (Some e, s') \<Rightarrow> (Some e, s')
      | (None, s') \<Rightarrow> submitTasks createTask slugid_nice scopes tasks s')"

section \<open>The template renderer\<close>

text \<open>
  The variables handed to the template engine, as \<^verbatim>\<open>work\<close> builds them
  (\<^verbatim>\<open>source\<close> is added once the template's address is known).
\<close>

record templateVariables =
  tv_owner :: string
  tv_revision :: string
  tv_project :: string
  tv_level :: int
  tv_revision_hash :: string
  tv_comment :: string
  tv_pushlog_id :: string
  tv_url :: string
  tv_pushdate :: int
  tv_source :: "string option"

text \<open>
  Two functions the renderer calls are not part of the file and are parameters here:
  \<open>safeLoad\<close> is \<^verbatim>\<open>yaml.safeLoad\<close> (the js-yaml package), and \<open>instantiate\<close> is the
  repository's \<^verbatim>\<open>try/instantiate\<close> module (variable substitution followed by a parse).
  Either returns a value or throws.
\<close>

type_synonym loader = "string \<Rightarrow> error + jsval"
type_synonym instantiator = "string \<Rightarrow> templateVariables \<Rightarrow> error + jsval"

text \<open>Lines 202--204: \<^verbatim>\<open>task.task.schedulerId = schedulerId\<close> for one entry.\<close>

definition setSchedulerId :: "string \<Rightarrow> jsval \<Rightarrow> error + jsval" where
  "setSchedulerId schedulerId task =
     bind_err (getp task ''task'') (\<lambda>inner.
     bind_err (setp inner ''schedulerId'' (JStr schedulerId)) (\<lambda>inner'.
       Inr (put task ''task'' inner')))"

definition renderTemplateV0 ::
  "instantiator \<Rightarrow> string \<Rightarrow> string \<Rightarrow> templateVariables \<Rightarrow> error + jsval" where
  "renderTemplateV0 instantiate project_alias template tv =
     (let schedulerId = ''gecko-level-'' @ show_int (tv_level tv) in
      bind_err (instantiate template tv) (\<lambda>renderedTemplate.
      bind_err (getp renderedTemplate ''tasks'') (\<lambda>tasks.
      bind_err (iterate tasks) (\<lambda>ts.
      bind_err (mapM_err (setSchedulerId schedulerId) ts) (\<lambda>ts'.
        Inr (put renderedTemplate ''tasks'' (put_elems tasks ts')))))))"

text \<open>
  Lines 176--189: the version is \<^verbatim>\<open>data.version\<close> of the parsed text. The read of
  \<^verbatim>\<open>data.version\<close> sits inside the \<^verbatim>\<open>try\<close>, so a document that parses to
  \<^verbatim>\<open>undefined\<close> or \<^verbatim>\<open>null\<close> is handled like one that does not parse.
\<close>

definition readVersion :: "loader \<Rightarrow> string \<Rightarrow> error + jsval" where
  "readVersion safeLoad template =
     bind_err (safeLoad template) (\<lambda>data. getp data ''version'')"

definition detectVersion :: "loader \<Rightarrow> string \<Rightarrow> error + jsval" where
  "detectVersion safeLoad template =
     (case readVersion safeLoad template of
        Inr version \<Rightarrow> Inr version
      | Inl e \<Rightarrow>
          (if indexOf template ''version: 0'' 0 \<noteq> None then Inr (JNum 0) else Inl e))"

definition renderTemplate ::
  "loader \<Rightarrow> instantiator \<Rightarrow> string \<Rightarrow> string \<Rightarrow> templateVariables \<Rightarrow> error + jsval" where
  "renderTemplate safeLoad instantiate project_alias template tv =
     bind_err (detectVersion safeLoad template) (\<lambda>version.
       if version = JNum 0 then renderTemplateV0 instantiate project_alias template tv
       else Inl (Error ''Unrecognized .taskcluster.yml version''))"

text \<open>
  Lines 125--127, the handler of a failed rendering:
  \<^verbatim>\<open>renderedTemplate = instantiate(errorGraphTemplate, templateVariables);\<close>
  \<^verbatim>\<open>renderedTemplate.tasks[0].task.payload.env = renderedTemplate.tasks[0].task.payload.env || {};\<close>
  \<^verbatim>\<open>renderedTemplate.tasks[0].task.payload.env.ERROR_MSG = e.toString()\<close>
  Nothing guards these statements: what they throw leaves \<^verbatim>\<open>scheduleTaskGroup\<close>.
\<close>

definition errorFallback ::
  "instantiator \<Rightarrow> string \<Rightarrow> templateVariables \<Rightarrow> error \<Rightarrow> error + jsval" where
  "errorFallback instantiate errorGraphTemplate tv e =
     bind_err (instantiate errorGraphTemplate tv) (\<lambda>renderedTemplate.
     bind_err (getp renderedTemplate ''tasks'') (\<lambda>tasks.
     bind_err (get0 tasks) (\<lambda>task0.
     bind_err (getp task0 ''task'') (\<lambda>task.
     bind_err (getp task ''payload'') (\<lambda>payload.
     bind_err (getp payload ''env'') (\<lambda>env.
     bind_err (setp payload ''env'' (if truthy env then env else JObj [])) (\<lambda>payload1.
     bind_err (getp payload1 ''env'') (\<lambda>env1.
     bind_err (setp env1 ''ERROR_MSG'' (JStr (toString e))) (\<lambda>env2.
       Inr (put renderedTemplate ''tasks''
             (put0 tasks
               (put task0 ''task''
                 (put task ''payload''
                   (put payload1 ''env'' env2))))))))))))))"

text \<open>Lines 117--128: the \<^verbatim>\<open>try\<close>/\<^verbatim>\<open>catch\<close> around the rendering.\<close>

definition renderOrFallback ::
  "loader \<Rightarrow> instantiator \<Rightarrow> string \<Rightarrow> string \<Rightarrow> templateVariables \<Rightarrow> string
     \<Rightarrow> error + jsval" where
  "renderOrFallback safeLoad instantiate project_alias template tv errorGraphTemplate =
     (case renderTemplate safeLoad instantiate project_alias template tv of
        Inr renderedTemplate \<Rightarrow> Inr renderedTemplate
      | Inl e \<Rightarrow> errorFallback instantiate errorGraphTemplate tv e)"

text \<open>The entries the loop of line 132 runs over.\<close>

definition renderedTasks ::
  "loader \<Rightarrow> instantiator \<Rightarrow> string \<Rightarrow> string \<Rightarrow> templateVariables \<Rightarrow> string
     \<Rightarrow> error + jsval list" where
  "renderedTasks safeLoad instantiate project_alias template tv errorGraphTemplate =
     bind_err (renderOrFallback safeLoad instantiate project_alias template tv errorGraphTemplate)
       (\<lambda>renderedTemplate. bind_err (getp renderedTemplate ''tasks'') iterate)"

text \<open>
  \<^verbatim>\<open>scheduleTaskGroup\<close>, lines 113--172. The result is the exception that leaves the
  function, if any, and the final state with the \<^verbatim>\<open>createTask\<close> calls that were issued.
\<close>

definition scheduleTaskGroup ::
  "loader \<Rightarrow> instantiator \<Rightarrow> (nat \<Rightarrow> string) \<Rightarrow> client \<Rightarrow> string \<Rightarrow> string
     \<Rightarrow> templateVariables \<Rightarrow> string list \<Rightarrow> string \<Rightarrow> error option \<times> sched_state" where
  "scheduleTaskGroup safeLoad instantiate slugid_nice createTask project_alias template tv
       scopes errorGraphTemplate =
     (case renderedTasks safeLoad instantiate project_alias template tv errorGraphTemplate of
        Inl e \<Rightarrow> (Some e, init_state)
      | Inr tasks \<Rightarrow> submitTasks createTask slugid_nice scopes tasks init_state)"

section \<open>The URL resolver and the commit message parser\<close>

text \<open>
  \<^verbatim>\<open>parseUrl\<close> calls Node's \<^verbatim>\<open>url.parse\<close> and \<^verbatim>\<open>path.resolve\<close>. The first is a
  parameter \<open>url_parse\<close>; of its result the fields \<^verbatim>\<open>protocol\<close> (the scheme with its
  colon, as in \<^verbatim>\<open>https:\<close>), \<^verbatim>\<open>host\<close> and \<^verbatim>\<open>path\<close> are read, each \<^verbatim>\<open>null\<close>
  (\<open>None\<close>) when the URL has no such part. The second is modelled for POSIX paths and one
  argument: a relative path is taken from the working directory \<open>cwd\<close>, empty and
  \<^verbatim>\<open>.\<close> segments are dropped, \<^verbatim>\<open>..\<close> removes the segment before it, and the result has
  no trailing slash.
\<close>

record parsed_url =
  parsed_protocol :: "string option"
  parsed_host :: "string option"
  parsed_path :: "string option"

record url_parts =
  path :: string
  host :: string

fun split_slash :: "string \<Rightarrow> string list" where
  "split_slash [] = [[]]"
| "split_slash (c # cs) =
     (if c = CHR ''/'' then [] # split_slash cs
      else (case split_slash cs of
              [] \<Rightarrow> [[c]]
            | w # ws \<Rightarrow> (c # w) # ws))"

fun normalizeArray :: "string list \<Rightarrow> string list \<Rightarrow> string list" where
  "normalizeArray [] acc = rev acc"
| "normalizeArray (p # ps) acc =
     (if p = [] \<or> p = ''.'' then normalizeArray ps acc
      else if p = ''..'' then normalizeArray ps (tl acc)
      else normalizeArray ps (p # acc))"

fun join_slash :: "string list \<Rightarrow> string" where
  "join_slash [] = []"
| "join_slash [x] = x"
| "join_slash (x # y # ys) = x @ ''/'' @ join_slash (y # ys)"

definition path_resolve :: "string \<Rightarrow> string option \<Rightarrow> error + string" where
  "path_resolve cwd arg =
     (case arg of
        None \<Rightarrow> Inl (TypeError ''Arguments to path.resolve must be strings'')
      | Some p \<Rightarrow>
          (let full = (if p \<noteq> [] \<and> hd p = CHR ''/'' then p else cwd @ ''/'' @ p)
           in Inr (CHR ''/'' # join_slash (normalizeArray (split_slash full) []))))"

text \<open>
  Lines 30--40. In the template literal a \<^verbatim>\<open>null\<close> host prints as \<^verbatim>\<open>null\<close>; the
  default of \<^verbatim>\<open>parsed.protocol || 'http'\<close> is taken for \<^verbatim>\<open>null\<close> and for the empty
  string.
\<close>

definition parseUrl :: "(string \<Rightarrow> parsed_url) \<Rightarrow> string \<Rightarrow> string \<Rightarrow> error + url_parts" where
  "parseUrl url_parse cwd u =
     (let parsed = url_parse u in
      bind_err (path_resolve cwd (parsed_path parsed)) (\<lambda>p.
        Inr \<lparr>path = (if p = ''/'' then [] else p),
             host = (case parsed_protocol parsed of
                       None \<Rightarrow> ''http''
                     | Some pr \<Rightarrow> if pr = [] then ''http'' else pr)
                    @ ''//''
                    @ (case parsed_host parsed of None \<Rightarrow> ''null'' | Some h \<Rightarrow> h)\<rparr>))"

definition TRY_PREFIX :: string where
  "TRY_PREFIX = ''try:''"

text \<open>Lines 45--57; \<open>None\<close> is the source's \<^verbatim>\<open>null\<close>.\<close>

definition parseCommitMessage :: "string \<Rightarrow> string option" where
  "parseCommitMessage msg =
     (case indexOf msg TRY_PREFIX 0 of
        None \<Rightarrow> None
      | Some tryIdx \<Rightarrow>
          (let endIdx = (case indexOf msg [CHR 0x0A] tryIdx of
                           None \<Rightarrow> length msg
                         | Some i \<Rightarrow> i)
           in Some (take (endIdx - tryIdx) (drop tryIdx msg))))"

section \<open>The template fetcher\<close>

definition GRAPH_RETIRES :: int where
  "GRAPH_RETIRES = 2"

definition GRAPH_INTERVAL :: int where
  "GRAPH_INTERVAL = 5000"

definition GRAPH_REQ_TIMEOUT :: int where
  "GRAPH_REQ_TIMEOUT = 30000"

text \<open>
  The HTTP client (superagent) and the retry wrapper (the promise-retries package) are
  parameters. \<open>http_get url timeout n\<close> is the outcome of the \<open>n\<close>-th request: it throws, or
  it returns a response with its \<^verbatim>\<open>error\<close> and \<^verbatim>\<open>text\<close>. \<open>retry\<close> receives the
  options object exactly as line 214 builds it, with the keys \<^verbatim>\<open>interval\<close> and
  \<^verbatim>\<open>retires\<close>, and the function to run; how often it runs it is the package's decision.
\<close>

record response =
  res_error :: "error option"
  res_text :: string

type_synonym http_client = "string \<Rightarrow> int \<Rightarrow> nat \<Rightarrow> error + response"
type_synonym retrier = "(string \<times> int) list \<Rightarrow> (nat \<Rightarrow> error + string) \<Rightarrow> error + string"

text \<open>Lines 216--224, one attempt.\<close>

definition fetchAttempt :: "http_client \<Rightarrow> string \<Rightarrow> nat \<Rightarrow> error + string" where
  "fetchAttempt http_get u n =
     bind_err (http_get u GRAPH_REQ_TIMEOUT n) (\<lambda>res.
       case res_error res of
         Some e \<Rightarrow> Inl e
       | None \<Rightarrow> Inr (res_text res))"

text \<open>Lines 212--228.\<close>

definition fetchGraph :: "retrier \<Rightarrow> http_client \<Rightarrow> string \<Rightarrow> error + string" where
  "fetchGraph retry http_get u =
     (if u = [] then Inl (mkError ''AssertionError'' ''url is required'')
      else (case retry [(''interval'', GRAPH_INTERVAL), (''retires'', GRAPH_RETIRES)]
                   (fetchAttempt http_get u) of
              Inr body \<Rightarrow> Inr body
            | Inl e \<Rightarrow>
                Inl (Error (''Could not fetch graph at '' @ u @ [CHR 0x0A] @ '' '' @ stack e))))"

section \<open>The job\<close>

record changeset =
  cs_node :: string
  cs_desc :: string

record push =
  push_id :: int
  push_user :: string
  push_changesets :: "changeset list"
  push_date :: int

record repo =
  repo_url :: string
  repo_alias :: string

record job_data =
  job_revision_hash :: string
  job_pushref_id :: int
  job_repo :: repo

record urlVariables =
  uv_alias :: string
  uv_revision :: string
  uv_path :: string
  uv_host :: string

text \<open>
  What the job reaches through \<^verbatim>\<open>this.runtime\<close>, \<^verbatim>\<open>this.config\<close> and its imports: the
  push log, the project registry (\<^verbatim>\<open>project_scopes\<close>, not part of the file: level,
  scopes and template address of a project), the error template, the constructor of the
  queue client (which receives \<^verbatim>\<open>authorizedScopes\<close>) and the libraries named above.
\<close>

record collaborators =
  getOne :: "string \<Rightarrow> int \<Rightarrow> error + push"
  config_level :: "string \<Rightarrow> int"
  config_scopes :: "string \<Rightarrow> string list"
  config_tcYamlUrl :: "urlVariables \<Rightarrow> string"
  config_errorTask :: string
  newQueue :: "string list \<Rightarrow> client"
  lib_url_parse :: "string \<Rightarrow> parsed_url"
  lib_cwd :: string
  lib_retry :: retrier
  lib_http_get :: http_client
  lib_safeLoad :: loader
  lib_instantiate :: instantiator
  lib_slugid_nice :: "nat \<Rightarrow> string"

definition notifyScope :: "string \<Rightarrow> string" where
  "notifyScope usr = ''queue:route:notify.email.'' @ usr @ ''.*''"

text \<open>
  \<^verbatim>\<open>work\<close>, lines 60--111. \<open>Inl e\<close>: the job failed with \<open>e\<close> before the queue client was
  constructed. \<open>Inr (authorizedScopes, r, s)\<close>: the client was constructed with these
  authorized scopes, and \<^verbatim>\<open>scheduleTaskGroup\<close> ended with \<open>r\<close> in state \<open>s\<close>.
\<close>

definition work ::
  "collaborators \<Rightarrow> job_data \<Rightarrow> error + (string list \<times> error option \<times> sched_state)" where
  "work c job =
     (let rp = job_repo job in
      bind_err (getOne c (repo_url rp) (job_pushref_id job)) (\<lambda>psh.
        let lvl = config_level c (repo_alias rp);
            scopes = config_scopes c (repo_alias rp) @ [notifyScope (push_user psh)]
        in
        bind_err (if push_changesets psh = []
                  then Inl (TypeError ''Cannot read property node of undefined'')
                  else Inr (last (push_changesets psh))) (\<lambda>lastChangeset.
          let tv = \<lparr>tv_owner = push_user psh,
                    tv_revision = cs_node lastChangeset,
                    tv_project = repo_alias rp,
                    tv_level = lvl,
                    tv_revision_hash = job_revision_hash job,
                    tv_comment = (case parseCommitMessage (cs_desc lastChangeset) of
                                    None \<Rightarrow> '' ''
                                  | Some m \<Rightarrow> if m = [] then '' '' else m),
                    tv_pushlog_id = show_int (push_id psh),
                    tv_url = repo_url rp,
                    tv_pushdate = push_date psh,
                    tv_source = None\<rparr>
          in
          bind_err (parseUrl (lib_url_parse c) (lib_cwd c) (repo_url rp)) (\<lambda>repositoryUrlParts.
            let graphUrl = config_tcYamlUrl c
                  \<lparr>uv_alias = repo_alias rp,
                   uv_revision = cs_node lastChangeset,
                   uv_path = path repositoryUrlParts,
                   uv_host = host repositoryUrlParts\<rparr>
            in
            bind_err (fetchGraph (lib_retry c) (lib_http_get c) graphUrl) (\<lambda>graphText.
              Inr (scopes,
                   scheduleTaskGroup (lib_safeLoad c) (lib_instantiate c) (lib_slugid_nice c)
                     (newQueue c scopes) (repo_alias rp) graphText
                     (tv\<lparr>tv_source := Some graphUrl\<rparr>) scopes (config_errorTask c)))))))"

section \<open>Notions used to state the properties\<close>

text \<open>
  The group id that the next iteration of the loop assigns: the current value of
  \<^verbatim>\<open>groupId\<close> unless \<^verbatim>\<open>!groupId\<close> holds, in which case the id generated next.
\<close>

definition gidOf :: "(nat \<Rightarrow> string) \<Rightarrow> sched_state \<Rightarrow> string" where
  "gidOf ids s =
     (case groupId s of
        None \<Rightarrow> ids (nextId s)
      | Some g0 \<Rightarrow> if g0 = [] then ids (nextId s) else g0)"

text \<open>
  An entry whose declared \<^verbatim>\<open>scopes\<close> are not a (non-empty) string. The scopes of a task
  are a list; a string in their place is the one shape that line 151 turns into a set of
  characters instead of rejecting it.
\<close>

definition scopes_not_string :: "jsval \<Rightarrow> bool" where
  "scopes_not_string task =
     (case bind_err (taskDefinitionOf task) (\<lambda>td. getp td ''scopes'') of
        Inr (JStr s) \<Rightarrow> s = []
      | _ \<Rightarrow> True)"

text \<open>
  An entry in the wrapped form \<^verbatim>\<open>{task: <definition>}\<close>: an object whose \<^verbatim>\<open>task\<close> is
  an object.
\<close>

fun is_object :: "jsval \<Rightarrow> bool" where
  "is_object (JObj ps) = True"
| "is_object v = False"

definition is_wrapped :: "jsval \<Rightarrow> bool" where
  "is_wrapped entry =
     (is_object entry \<and> (case getp entry ''task'' of Inr v \<Rightarrow> is_object v | Inl e \<Rightarrow> False))"

text \<open>\<^verbatim>\<open>entry.task.payload.env.ERROR_MSG\<close> of an entry of a rendered graph.\<close>

definition errorMsgOf :: "jsval \<Rightarrow> error + jsval" where
  "errorMsgOf entry =
     bind_err (getp entry ''task'') (\<lambda>task.
     bind_err (getp task ''payload'') (\<lambda>payload.
     bind_err (getp payload ''env'') (\<lambda>env. getp env ''ERROR_MSG'')))"

section \<open>Example inputs\<close>

text \<open>
  Four template texts (in YAML's one-line flow style, without variables) and what they
  parse to: a version-0 template of three wrapped tasks, the first of which declares
  scopes and a group id of its own; a version-0 template whose only entry is a bare task
  definition; a template of version 1; and an error template whose task already sets
  \<^verbatim>\<open>ERROR_MSG\<close> and another variable in its environment. The fifth text is no YAML: its
  bracket is never closed.
\<close>

definition ex_template :: string where
  "ex_template =
     ''{version: 0, tasks: [{task: {taskGroupId: mine, scopes: [a, s, a]}}, {task: {payload: {}}}, {task: {}}]}''"

definition ex_graph :: jsval where
  "ex_graph =
     JObj [(''version'', JNum 0),
           (''tasks'',
            JArr [JObj [(''task'', JObj [(''taskGroupId'', JStr ''mine''),
                                         (''scopes'', JArr [JStr ''a'', JStr ''s'', JStr ''a''] [])])],
                  JObj [(''task'', JObj [(''payload'', JObj [])])],
                  JObj [(''task'', JObj [])]] [])]"

definition ex_bare_template :: string where
  "ex_bare_template = ''{version: 0, tasks: [{payload: {}}]}''"

definition ex_bare_graph :: jsval where
  "ex_bare_graph =
     JObj [(''version'', JNum 0), (''tasks'', JArr [JObj [(''payload'', JObj [])]] [])]"

definition ex_v1_template :: string where
  "ex_v1_template = ''{version: 1, tasks: []}''"

definition ex_v1_graph :: jsval where
  "ex_v1_graph = JObj [(''version'', JNum 1), (''tasks'', JArr [] [])]"

definition ex_error_template :: string where
  "ex_error_template =
     ''{tasks: [{task: {payload: {image: ubuntu, env: {ERROR_MSG: set by the template, OWNER: user@example.com}}}}]}''"

definition ex_error_graph :: jsval where
  "ex_error_graph =
     JObj [(''tasks'',
            JArr [JObj [(''task'',
                         JObj [(''payload'',
                                JObj [(''image'', JStr ''ubuntu''),
                                      (''env'', JObj [(''ERROR_MSG'', JStr ''set by the template''),
                                                      (''OWNER'', JStr ''user@example.com'')])])])]]
              [])]"

definition ex_broken_template :: string where
  "ex_broken_template = ''tasks: [''"

definition ex_yaml_error :: error where
  "ex_yaml_error =
     Exn ''unexpected end of the stream within a flow collection''
       ''YAMLException: unexpected end of the stream within a flow collection''
       ''YAMLException: unexpected end of the stream within a flow collection''"

text \<open>
  The loader on these texts; any other text is rejected. The texts hold no variables, so
  instantiating them is parsing them.
\<close>

definition ex_safeLoad :: loader where
  "ex_safeLoad t =
     (if t = ex_template then Inr ex_graph
      else if t = ex_bare_template then Inr ex_bare_graph
      else if t = ex_v1_template then Inr ex_v1_graph
      else if t = ex_error_template then Inr ex_error_graph
      else Inl ex_yaml_error)"

definition ex_instantiate :: instantiator where
  "ex_instantiate t tv = ex_safeLoad t"

text \<open>The variables of a push to the project \<^verbatim>\<open>try\<close>, at level 3.\<close>

definition ex_tv :: templateVariables where
  "ex_tv = \<lparr>tv_owner = ''user@example.com'', tv_revision = ''abcdef'', tv_project = ''try'',
            tv_level = 3, tv_revision_hash = ''0123'', tv_comment = '' '',
            tv_pushlog_id = ''7'', tv_url = ''https://hg.mozilla.org/try'',
            tv_pushdate = 0, tv_source = None\<rparr>"

text \<open>The entries of the first template once rendered.\<close>

definition ex_tasks :: "jsval list" where
  "ex_tasks =
     [JObj [(''task'', JObj [(''taskGroupId'', JStr ''mine''),
                             (''scopes'', JArr [JStr ''a'', JStr ''s'', JStr ''a''] []),
                             (''schedulerId'', JStr ''gecko-level-3'')])],
      JObj [(''task'', JObj [(''payload'', JObj []),
                             (''schedulerId'', JStr ''gecko-level-3'')])],
      JObj [(''task'', JObj [(''schedulerId'', JStr ''gecko-level-3'')])]]"

text \<open>
  Task ids \<^verbatim>\<open>id0\<close>, \<^verbatim>\<open>id1\<close>, ...; a queue that accepts every task, and one that rejects
  the second call.
\<close>

definition ex_ids :: "nat \<Rightarrow> string" where
  "ex_ids n = ''id'' @ show_nat n"

definition ex_accept :: client where
  "ex_accept h i d = None"

definition ex_reject_second :: client where
  "ex_reject_second h i d = (if length h = 1 then Some (Error ''rejected'') else None)"

definition ex_run :: "client \<Rightarrow> error option \<times> sched_state" where
  "ex_run createTask =
     scheduleTaskGroup ex_safeLoad ex_instantiate ex_ids createTask ''try'' ex_template ex_tv
       [''s''] ex_error_template"

definition ex_defs :: "nat \<Rightarrow> jsval" where
  "ex_defs i =
     (case prepareTask (ex_tasks ! i) [''s''] ''id0'' of
        Inr d \<Rightarrow> d
      | Inl e \<Rightarrow> JUndefined)"

text \<open>
  A job for a push by \<^verbatim>\<open>user@example.com\<close> to the project \<^verbatim>\<open>try\<close>, whose registry
  entry grants the scope \<^verbatim>\<open>s\<close>; the first template is fetched at the first attempt.
\<close>

definition ex_collab :: collaborators where
  "ex_collab =
     \<lparr>getOne = (\<lambda>u i. Inr \<lparr>push_id = 7, push_user = ''user@example.com'',
                            push_changesets = [\<lparr>cs_node = ''abcdef'', cs_desc = ''try: -b o''\<rparr>],
                            push_date = 0\<rparr>),
      config_level = (\<lambda>a. 3),
      config_scopes = (\<lambda>a. [''s'']),
      config_tcYamlUrl = (\<lambda>v. uv_host v @ uv_path v @ ''/raw-file/'' @ uv_revision v
                                @ ''/.taskcluster.yml''),
      config_errorTask = ex_error_template,
      newQueue = (\<lambda>authorizedScopes. ex_accept),
      lib_url_parse = (\<lambda>u. \<lparr>parsed_protocol = Some ''https:'',
                              parsed_host = Some ''hg.mozilla.org'',
                              parsed_path = Some ''/try/''\<rparr>),
      lib_cwd = ''/home/worker'',
      lib_retry = (\<lambda>opts f. f 0),
      lib_http_get = (\<lambda>u t n. Inr \<lparr>res_error = None, res_text = ex_template\<rparr>),
      lib_safeLoad = ex_safeLoad,
      lib_instantiate = ex_instantiate,
      lib_slugid_nice = ex_ids\<rparr>"

definition ex_job :: job_data where
  "ex_job = \<lparr>job_revision_hash = ''0123'', job_pushref_id = 7,
             job_repo = \<lparr>repo_url = ''https://hg.mozilla.org/try/'', repo_alias = ''try''\<rparr>\<rparr>"

text \<open>What \<^verbatim>\<open>url.parse\<close> returns for two addresses of the repository host.\<close>

definition ex_url_parse :: "string \<Rightarrow> parsed_url" where
  "ex_url_parse u =
     \<lparr>parsed_protocol = Some ''https:'', parsed_host = Some ''hg.mozilla.org'',
      parsed_path = (if u = ''https://hg.mozilla.org/try/'' then Some ''/try/'' else Some ''/'')\<rparr>"

section \<open>Basic facts\<close>

lemma bind_err_Inl [simp]: "bind_err (Inl e) f = Inl e"
  by (simp add: bind_err_def)

lemma bind_err_Inr [simp]: "bind_err (Inr x) f = f x"
  by (simp add: bind_err_def)

lemma bind_err_eq_Inr: "bind_err m f = Inr y \<longleftrightarrow> (\<exists>x. m = Inr x \<and> f x = Inr y)"
  by (cases m) simp_all

lemma lookup_update: "lookup (AList.update k v ps) k' = (if k' = k then v else lookup ps k')"
  by (simp add: lookup_def update_conv')

lemma getp_setp:
  "setp v k x = Inr v' \<Longrightarrow> getp v' k' = (if k' = k then Inr x else getp v k')"
  by (cases v) (auto simp: lookup_update)

lemma set_foldl_set_add: "set (foldl set_add acc xs) = set acc \<union> set xs"
  by (induction xs arbitrary: acc) (auto simp: set_add_def list_ex_iff same_value_zero_def)

lemma distinct_foldl_set_add:
  "distinct acc \<Longrightarrow> \<forall>x\<in>set xs. is_primitive x \<Longrightarrow> distinct (foldl set_add acc xs)"
  by (induction xs arbitrary: acc) (auto simp: set_add_def list_ex_iff same_value_zero_def)

section \<open>The loop of the submitter\<close>

text \<open>What one iteration does to the state, by the outcome of preparing the entry.\<close>

lemma processTask_cases:
  assumes "processTask cT ids scopes t s = (r, s')"
  shows "nextId s' = Suc (nextId s) \<and> groupId s' = Some (gidOf ids s) \<and>
    ((\<exists>e. prepareTask t scopes (gidOf ids s) = Inl e \<and> r = Some e \<and> calls s' = calls s) \<or>
     (\<exists>d. prepareTask t scopes (gidOf ids s) = Inr d \<and>
          r = cT (calls s) (ids (nextId s)) d \<and>
          calls s' = calls s @ [(ids (nextId s), d)]))"
  using assms
  by (auto simp: processTask_def gidOf_def Let_def split: sum.splits option.splits)

text \<open>Once set to a non-empty id, the group id stays.\<close>

lemma gidOf_step:
  "\<forall>n. ids n \<noteq> [] \<Longrightarrow> groupId s' = Some (gidOf ids s) \<Longrightarrow> gidOf ids s' = gidOf ids s"
  by (auto simp: gidOf_def split: option.splits)

text \<open>
  The calls of a run extend the log by one call per processed entry, in order: the
  \<open>i\<close>-th new call carries the \<open>i\<close>-th generated id and the prepared \<open>i\<close>-th entry, and a
  run that ends without an exception has processed every entry.
\<close>

lemma submitTasks_calls:
  assumes "submitTasks cT ids scopes ts s = (r, s')"
  shows "\<exists>cs. calls s' = calls s @ cs \<and> length cs \<le> length ts \<and>
           (\<forall>i<length cs. fst (cs ! i) = ids (nextId s + i) \<and>
               (\<exists>g. prepareTask (ts ! i) scopes g = Inr (snd (cs ! i)) \<and>
                    ((\<forall>n. ids n \<noteq> []) \<longrightarrow> g = gidOf ids s))) \<and>
           (r = None \<longrightarrow> length cs = length ts)"
  using assms
proof (induction ts arbitrary: s)
  case Nil
  then show ?case by simp
next
  case (Cons t ts)
  obtain r1 s1 where p: "processTask cT ids scopes t s = (r1, s1)"
    by (cases "processTask cT ids scopes t s")
  note pc = processTask_cases [OF p]
  have g1: "(\<forall>n. ids n \<noteq> []) \<Longrightarrow> gidOf ids s1 = gidOf ids s"
    using gidOf_step pc by blast
  show ?case
  proof (cases r1)
    case (Some e)
    with Cons.prems p have rs: "r = Some e" "s' = s1" by auto
    from pc show ?thesis
    proof (elim conjE disjE exE)
      fix e' assume "calls s1 = calls s"
      then show ?thesis using rs by simp
    next
      fix d assume d: "prepareTask t scopes (gidOf ids s) = Inr d"
        "calls s1 = calls s @ [(ids (nextId s), d)]"
      show ?thesis
        by (rule exI [of _ "[(ids (nextId s), d)]"]) (use d rs in auto)
    qed
  next
    case None
    with Cons.prems p have rest: "submitTasks cT ids scopes ts s1 = (r, s')" by simp
    from pc None obtain d where d: "prepareTask t scopes (gidOf ids s) = Inr d"
        "calls s1 = calls s @ [(ids (nextId s), d)]" and n1: "nextId s1 = Suc (nextId s)"
      by auto
    from Cons.IH [OF rest] obtain cs where cs: "calls s' = calls s1 @ cs"
      "length cs \<le> length ts"
      "\<forall>i<length cs. fst (cs ! i) = ids (nextId s1 + i) \<and>
         (\<exists>g. prepareTask (ts ! i) scopes g = Inr (snd (cs ! i)) \<and>
              ((\<forall>n. ids n \<noteq> []) \<longrightarrow> g = gidOf ids s1))"
      "r = None \<longrightarrow> length cs = length ts"
      by blast
    show ?thesis
    proof (rule exI [of _ "(ids (nextId s), d) # cs"], intro conjI allI impI)
      fix i assume i: "i < length ((ids (nextId s), d) # cs)"
      then show "fst (((ids (nextId s), d) # cs) ! i) = ids (nextId s + i)"
        using cs(3) n1 by (cases i) auto
      show "\<exists>g. prepareTask ((t # ts) ! i) scopes g =
              Inr (snd (((ids (nextId s), d) # cs) ! i)) \<and>
              ((\<forall>n. ids n \<noteq> []) \<longrightarrow> g = gidOf ids s)"
      proof (cases i)
        case 0
        then show ?thesis using d(1) by auto
      next
        case (Suc j)
        with i have "j < length cs" by simp
        with cs(3) obtain g where "prepareTask (ts ! j) scopes g = Inr (snd (cs ! j))"
          "(\<forall>n. ids n \<noteq> []) \<longrightarrow> g = gidOf ids s1" by blast
        then show ?thesis using Suc g1 by auto
      qed
    qed (use cs d in auto)
  qed
qed

text \<open>The same for a whole run of \<^verbatim>\<open>scheduleTaskGroup\<close>, which starts with no group id.\<close>

lemma scheduleTaskGroup_calls:
  assumes "renderedTasks safeLoad instantiate project_alias template tv errorGraphTemplate
           = Inr tasks"
    and "scheduleTaskGroup safeLoad instantiate slugid_nice createTask project_alias template
           tv scopes errorGraphTemplate = (r, s')"
  shows "length (calls s') \<le> length tasks \<and>
         (r = None \<longrightarrow> length (calls s') = length tasks) \<and>
         (\<forall>i<length (calls s'). fst (calls s' ! i) = slugid_nice i \<and>
             (\<exists>g. prepareTask (tasks ! i) scopes g = Inr (snd (calls s' ! i)) \<and>
                  ((\<forall>n. slugid_nice n \<noteq> []) \<longrightarrow> g = slugid_nice 0)))"
proof -
  from assms have "submitTasks createTask slugid_nice scopes tasks init_state = (r, s')"
    by (simp add: scheduleTaskGroup_def)
  from submitTasks_calls [OF this]
  show ?thesis by (auto simp: init_state_def gidOf_def)
qed

lemma prepareTask_taskGroupId:
  assumes "prepareTask task scopes g = Inr d"
  shows "getp d ''taskGroupId'' = Inr (JStr g)"
  using assms by (auto simp: prepareTask_def bind_err_eq_Inr getp_setp)

text \<open>
  A run in which the first \<open>k\<close> calls are accepted and the next one is rejected: the
  rejection ends the run, and the log holds these \<open>k + 1\<close> calls.
\<close>

lemma upt_map_shift: "map f [0..<Suc k] = f 0 # map (\<lambda>j. f (Suc j)) [0..<k]"
  by (induction k) simp_all

lemma submitTasks_fails_at:
  assumes "\<forall>n. ids n \<noteq> []"
    and "k < length ts"
    and "\<forall>i\<le>k. prepareTask (ts ! i) scopes (gidOf ids s) = Inr (ds i)"
    and "\<forall>i<k. cT (calls s @ map (\<lambda>j. (ids (nextId s + j), ds j)) [0..<i])
                  (ids (nextId s + i)) (ds i) = None"
    and "cT (calls s @ map (\<lambda>j. (ids (nextId s + j), ds j)) [0..<k])
            (ids (nextId s + k)) (ds k) = Some e"
  shows "\<exists>s'. submitTasks cT ids scopes ts s = (Some e, s') \<and>
           calls s' = calls s @ map (\<lambda>j. (ids (nextId s + j), ds j)) [0..<Suc k]"
  using assms(2-)
proof (induction ts arbitrary: s k ds)
  case Nil
  then show ?case by simp
next
  case (Cons t ts)
  obtain r1 s1 where p: "processTask cT ids scopes t s = (r1, s1)"
    by (cases "processTask cT ids scopes t s")
  note pc = processTask_cases [OF p]
  from Cons.prems(2) [rule_format, of 0]
  have d0: "prepareTask t scopes (gidOf ids s) = Inr (ds 0)"
    by simp
  with pc have r1: "r1 = cT (calls s) (ids (nextId s)) (ds 0)"
    and c1: "calls s1 = calls s @ [(ids (nextId s), ds 0)]"
    and n1: "nextId s1 = Suc (nextId s)"
    by auto
  have g1: "gidOf ids s1 = gidOf ids s"
    using gidOf_step [OF assms(1)] pc by blast
  show ?case
  proof (cases k)
    case 0
    with Cons.prems(4) r1 have "r1 = Some e" by simp
    with p c1 0 show ?thesis by simp
  next
    case (Suc k')
    with Cons.prems(3) [rule_format, of 0] r1 have "r1 = None"
      by simp
    with p have step: "submitTasks cT ids scopes (t # ts) s = submitTasks cT ids scopes ts s1"
      by simp
    have a1: "k' < length ts" using Cons.prems(1) Suc by simp
    have a2: "\<forall>i\<le>k'. prepareTask (ts ! i) scopes (gidOf ids s1) = Inr (ds (Suc i))"
    proof (intro allI impI)
      fix i assume "i \<le> k'"
      then have "Suc i \<le> k" using Suc by simp
      from Cons.prems(2) [rule_format, OF this]
      show "prepareTask (ts ! i) scopes (gidOf ids s1) = Inr (ds (Suc i))"
        by (simp add: g1)
    qed
    have hist: "calls s1 @ map (\<lambda>j. (ids (Suc (nextId s + j)), ds (Suc j))) [0..<i]
        = calls s @ map (\<lambda>j. (ids (nextId s + j), ds j)) [0..<Suc i]" for i
      unfolding upt_map_shift [of _ i] c1 by simp
    have a3: "\<forall>i<k'. cT (calls s1 @ map (\<lambda>j. (ids (nextId s1 + j), ds (Suc j))) [0..<i])
                  (ids (nextId s1 + i)) (ds (Suc i)) = None"
    proof (intro allI impI)
      fix i assume "i < k'"
      then have "Suc i < k" using Suc by simp
      from Cons.prems(3) [rule_format, OF this]
      show "cT (calls s1 @ map (\<lambda>j. (ids (nextId s1 + j), ds (Suc j))) [0..<i])
                  (ids (nextId s1 + i)) (ds (Suc i)) = None"
        unfolding n1 add_Suc hist by simp
    qed
    have a4: "cT (calls s1 @ map (\<lambda>j. (ids (nextId s1 + j), ds (Suc j))) [0..<k'])
            (ids (nextId s1 + k')) (ds (Suc k')) = Some e"
      using Cons.prems(4) unfolding n1 add_Suc hist Suc by simp
    from Cons.IH [OF a1 a2 a3 a4] obtain s' where
      "submitTasks cT ids scopes ts s1 = (Some e, s')"
      "calls s' = calls s1 @ map (\<lambda>j. (ids (nextId s1 + j), ds (Suc j))) [0..<Suc k']"
      by blast
    then show ?thesis unfolding step n1 add_Suc hist Suc by blast
  qed
qed


section \<open>The scope union\<close>

lemma mergeScopes_list:
  assumes "(\<not> truthy declared \<and> xs = []) \<or> (\<exists>ps. declared = JArr xs ps)"
  shows "\<exists>us. mergeScopes declared scopes = Inr (JArr us []) \<and>
              set us = set xs \<union> JStr ` set scopes \<and>
              ((\<forall>x\<in>set xs. is_primitive x) \<longrightarrow> distinct us)"
proof -
  have "mergeScopes declared scopes = Inr (array_from_set (xs @ map JStr scopes))"
    using assms by (auto simp: mergeScopes_def)
  moreover have "(\<forall>x\<in>set xs. is_primitive x) \<longrightarrow>
                   distinct (foldl set_add [] (xs @ map JStr scopes))"
    by (auto intro!: distinct_foldl_set_add)
  ultimately show ?thesis
    by (auto simp: array_from_set_def set_foldl_set_add)
qed

lemma prepareTask_scopes:
  assumes "prepareTask task scopes g = Inr d"
    and "taskDefinitionOf task = Inr td"
    and "getp td ''scopes'' = Inr declared"
  shows "Inr d = bind_err (mergeScopes declared scopes) (\<lambda>m.
           bind_err (setp td ''scopes'' m) (\<lambda>td1. setp td1 ''taskGroupId'' (JStr g)))
         \<and> getp d ''scopes'' = mergeScopes declared scopes"
  using assms by (auto simp: prepareTask_def bind_err_eq_Inr getp_setp)

section \<open>Group id, scopes and partial failure of a submission\<close>

text \<open>
  Claim C1. For every rendered task graph, every task the submitter hands to
  \<^verbatim>\<open>createTask\<close> carries the same \<^verbatim>\<open>taskGroupId\<close>: the id generated for the first task
  of the sequence. The \<open>i\<close>-th call is made with the \<open>i\<close>-th generated id and the \<open>i\<close>-th
  entry of the graph; the definition passed in the call already has the field set, whatever
  the template put there; and when no exception leaves the submitter, every task of the
  graph has been submitted so. \<^verbatim>\<open>slugid.nice()\<close> returns non-empty ids.
\<close>

theorem taskGroupId_shared:
  assumes "\<forall>n. slugid_nice n \<noteq> []"
    and "renderedTasks safeLoad instantiate project_alias template tv errorGraphTemplate
           = Inr tasks"
    and "scheduleTaskGroup safeLoad instantiate slugid_nice createTask project_alias template
           tv scopes errorGraphTemplate = (r, s')"
  shows "length (calls s') \<le> length tasks \<and>
         (r = None \<longrightarrow> length (calls s') = length tasks) \<and>
         (\<forall>i<length (calls s'). fst (calls s' ! i) = slugid_nice i \<and>
             getp (snd (calls s' ! i)) ''taskGroupId'' = Inr (JStr (slugid_nice 0)))"
proof -
  note run = scheduleTaskGroup_calls [OF assms(2,3)]
  have "getp (snd (calls s' ! i)) ''taskGroupId'' = Inr (JStr (slugid_nice 0))"
    if "i < length (calls s')" for i
  proof -
    from run that assms(1) have
      "prepareTask (tasks ! i) scopes (slugid_nice 0) = Inr (snd (calls s' ! i))"
      by auto
    then show ?thesis by (rule prepareTask_taskGroupId)
  qed
  with run show ?thesis by blast
qed

theorem taskGroupId_shared_witness:
  "(\<forall>n. ex_ids n \<noteq> []) \<and>
   renderedTasks ex_safeLoad ex_instantiate ''try'' ex_template ex_tv ex_error_template
     = Inr ex_tasks \<and>
   fst (ex_run ex_accept) = None \<and>
   length (calls (snd (ex_run ex_accept))) = 3 \<and>
   fst (calls (snd (ex_run ex_accept)) ! 2) = ''id2'' \<and>
   getp (snd (calls (snd (ex_run ex_accept)) ! 0)) ''taskGroupId'' = Inr (JStr ''id0'') \<and>
   getp (snd (calls (snd (ex_run ex_accept)) ! 1)) ''taskGroupId'' = Inr (JStr ''id0'') \<and>
   getp (snd (calls (snd (ex_run ex_accept)) ! 2)) ''taskGroupId'' = Inr (JStr ''id0'')"
proof -
  have h1: "\<forall>n. ex_ids n \<noteq> []"
    by (simp add: ex_ids_def)
  have h2: "renderedTasks ex_safeLoad ex_instantiate ''try'' ex_template ex_tv
              ex_error_template = Inr ex_tasks"
    by code_simp
  have h3: "scheduleTaskGroup ex_safeLoad ex_instantiate ex_ids ex_accept ''try'' ex_template
              ex_tv [''s''] ex_error_template
            = (fst (ex_run ex_accept), snd (ex_run ex_accept))"
    by (simp add: ex_run_def)
  have r: "fst (ex_run ex_accept) = None"
    by code_simp
  have i0: "ex_ids 0 = ''id0''" and i2: "ex_ids 2 = ''id2''"
    by code_simp+
  have len: "length ex_tasks = 3"
    by (simp add: ex_tasks_def)
  from taskGroupId_shared [OF h1 h2 h3] r i0 i2 len h1 h2
  show ?thesis by simp
qed

text \<open>
  Claim C2. For every task handed to \<^verbatim>\<open>createTask\<close>, the \<^verbatim>\<open>scopes\<close> field of the
  definition passed in the call is an array holding exactly the scopes the task declared
  (none when the field is absent or otherwise falsy) together with the project scopes the
  caller supplied, each once. The declared scopes are a list of primitive values (strings).
\<close>

theorem scopes_union:
  assumes "renderedTasks safeLoad instantiate project_alias template tv errorGraphTemplate
           = Inr tasks"
    and "scheduleTaskGroup safeLoad instantiate slugid_nice createTask project_alias template
           tv scopes errorGraphTemplate = (r, s')"
    and "i < length (calls s')"
    and "taskDefinitionOf (tasks ! i) = Inr td"
    and "getp td ''scopes'' = Inr declared"
    and "(\<not> truthy declared \<and> xs = []) \<or> (\<exists>ps. declared = JArr xs ps)"
    and "\<forall>x\<in>set xs. is_primitive x"
  shows "\<exists>us. getp (snd (calls s' ! i)) ''scopes'' = Inr (JArr us []) \<and>
              set us = set xs \<union> JStr ` set scopes \<and> distinct us"
proof -
  from scheduleTaskGroup_calls [OF assms(1,2)] assms(3) obtain g where
    "prepareTask (tasks ! i) scopes g = Inr (snd (calls s' ! i))"
    by blast
  from prepareTask_scopes [OF this assms(4,5)]
  have "getp (snd (calls s' ! i)) ''scopes'' = mergeScopes declared scopes"
    by simp
  with mergeScopes_list [OF assms(6), of scopes] assms(7) show ?thesis
    by auto
qed

theorem scopes_union_witness:
  "renderedTasks ex_safeLoad ex_instantiate ''try'' ex_template ex_tv ex_error_template
     = Inr ex_tasks \<and>
   0 < length (calls (snd (ex_run ex_accept))) \<and>
   taskDefinitionOf (ex_tasks ! 0)
     = Inr (JObj [(''taskGroupId'', JStr ''mine''),
                  (''scopes'', JArr [JStr ''a'', JStr ''s'', JStr ''a''] []),
                  (''schedulerId'', JStr ''gecko-level-3'')]) \<and>
   (\<exists>us. getp (snd (calls (snd (ex_run ex_accept)) ! 0)) ''scopes'' = Inr (JArr us []) \<and>
         set us = {JStr ''a'', JStr ''s''} \<and> distinct us)"
proof -
  let ?td = "JObj [(''taskGroupId'', JStr ''mine''),
                  (''scopes'', JArr [JStr ''a'', JStr ''s'', JStr ''a''] []),
                  (''schedulerId'', JStr ''gecko-level-3'')]"
  let ?xs = "[JStr ''a'', JStr ''s'', JStr ''a'']"
  have h1: "renderedTasks ex_safeLoad ex_instantiate ''try'' ex_template ex_tv
              ex_error_template = Inr ex_tasks"
    by code_simp
  have h2: "scheduleTaskGroup ex_safeLoad ex_instantiate ex_ids ex_accept ''try'' ex_template
              ex_tv [''s''] ex_error_template
            = (fst (ex_run ex_accept), snd (ex_run ex_accept))"
    by (simp add: ex_run_def)
  have h3: "0 < length (calls (snd (ex_run ex_accept)))"
    by code_simp
  have h4: "taskDefinitionOf (ex_tasks ! 0) = Inr ?td"
    by code_simp
  have h5: "getp ?td ''scopes'' = Inr (JArr ?xs [])"
    by code_simp
  have h6: "(\<not> truthy (JArr ?xs []) \<and> ?xs = []) \<or> (\<exists>ps. JArr ?xs [] = JArr ?xs ps)"
    by simp
  have h7: "\<forall>x\<in>set ?xs. is_primitive x"
    by simp
  from scopes_union [OF h1 h2 h3 h4 h5 h6 h7] h1 h3 h4
  show ?thesis by auto
qed

text \<open>
  Claim C3. When the first \<open>k\<close> \<^verbatim>\<open>createTask\<close> calls of a graph are accepted and the
  next one is rejected with \<open>e\<close>, the submitter ends with \<open>e\<close> and has issued exactly these
  \<open>k + 1\<close> calls: none for the remaining tasks, and nothing that would undo the accepted
  ones (the client is only ever asked to create tasks).
\<close>

theorem partial_failure:
  assumes "\<forall>n. slugid_nice n \<noteq> []"
    and "renderedTasks safeLoad instantiate project_alias template tv errorGraphTemplate
           = Inr tasks"
    and "k < length tasks"
    and "\<forall>i\<le>k. prepareTask (tasks ! i) scopes (slugid_nice 0) = Inr (defs i)"
    and "\<forall>i<k. createTask (map (\<lambda>j. (slugid_nice j, defs j)) [0..<i])
                   (slugid_nice i) (defs i) = None"
    and "createTask (map (\<lambda>j. (slugid_nice j, defs j)) [0..<k])
           (slugid_nice k) (defs k) = Some e"
  shows "\<exists>s'. scheduleTaskGroup safeLoad instantiate slugid_nice createTask project_alias
                 template tv scopes errorGraphTemplate = (Some e, s') \<and>
              calls s' = map (\<lambda>j. (slugid_nice j, defs j)) [0..<Suc k] \<and>
              length (calls s') = Suc k"
proof -
  have "\<exists>s'. submitTasks createTask slugid_nice scopes tasks init_state = (Some e, s') \<and>
          calls s' = calls init_state
            @ map (\<lambda>j. (slugid_nice (nextId init_state + j), defs j)) [0..<Suc k]"
    by (rule submitTasks_fails_at [OF assms(1) assms(3)])
       (use assms(4-6) in \<open>simp_all add: gidOf_def init_state_def\<close>)
  then obtain s' where
    "submitTasks createTask slugid_nice scopes tasks init_state = (Some e, s')"
    "calls s' = map (\<lambda>j. (slugid_nice j, defs j)) [0..<Suc k]"
    by (auto simp: init_state_def)
  then show ?thesis using assms(2)
    by (auto simp: scheduleTaskGroup_def simp del: upt_Suc)
qed

theorem partial_failure_witness:
  "(\<forall>n. ex_ids n \<noteq> []) \<and>
   length ex_tasks = 3 \<and>
   ex_reject_second [(ex_ids 0, ex_defs 0)] (ex_ids 1) (ex_defs 1) = Some (Error ''rejected'') \<and>
   fst (ex_run ex_reject_second) = Some (Error ''rejected'') \<and>
   length (calls (snd (ex_run ex_reject_second))) = 2"
proof -
  have h1: "\<forall>n. ex_ids n \<noteq> []"
    by (simp add: ex_ids_def)
  have h2: "renderedTasks ex_safeLoad ex_instantiate ''try'' ex_template ex_tv
              ex_error_template = Inr ex_tasks"
    by code_simp
  have h3: "1 < length ex_tasks"
    by (simp add: ex_tasks_def)
  have p0: "prepareTask (ex_tasks ! 0) [''s''] (ex_ids 0) = Inr (ex_defs 0)"
    by code_simp
  have p1: "prepareTask (ex_tasks ! 1) [''s''] (ex_ids 0) = Inr (ex_defs 1)"
    by code_simp
  have h4: "\<forall>i\<le>1. prepareTask (ex_tasks ! i) [''s''] (ex_ids 0) = Inr (ex_defs i)"
    using p0 p1 by (auto simp: le_Suc_eq)
  have h5: "\<forall>i<1. ex_reject_second (map (\<lambda>j. (ex_ids j, ex_defs j)) [0..<i])
                   (ex_ids i) (ex_defs i) = None"
    by (simp add: ex_reject_second_def)
  have h6: "ex_reject_second (map (\<lambda>j. (ex_ids j, ex_defs j)) [0..<1])
                   (ex_ids 1) (ex_defs 1) = Some (Error ''rejected'')"
    by (simp add: ex_reject_second_def)
  from partial_failure [OF h1 h2 h3 h4 h5 h6] h1 h6
  show ?thesis by (auto simp: ex_run_def ex_tasks_def)
qed

section \<open>The job's scopes\<close>

lemma prepareTask_project_scopes:
  assumes "prepareTask task scopes g = Inr d"
    and "scopes_not_string task"
  shows "\<exists>us. getp d ''scopes'' = Inr (JArr us []) \<and> JStr ` set scopes \<subseteq> set us"
proof -
  from assms(1) obtain td declared m where td: "taskDefinitionOf task = Inr td"
    and dc: "getp td ''scopes'' = Inr declared"
    and m: "mergeScopes declared scopes = Inr m"
    by (auto simp: prepareTask_def bind_err_eq_Inr)
  from assms(2) td dc have ns: "\<forall>s. declared = JStr s \<longrightarrow> s = []"
    by (auto simp: scopes_not_string_def)
  have "\<exists>xs. (\<not> truthy declared \<and> xs = []) \<or> (\<exists>ps. declared = JArr xs ps)"
    using m ns by (cases declared) (auto simp: mergeScopes_def split: if_splits)
  then obtain xs where "(\<not> truthy declared \<and> xs = []) \<or> (\<exists>ps. declared = JArr xs ps)"
    by blast
  from mergeScopes_list [OF this, of scopes] prepareTask_scopes [OF assms(1) td dc]
  show ?thesis by auto
qed

lemma work_Inr:
  assumes "work c job = Inr (authorizedScopes, r, s')"
  shows "\<exists>psh graphUrl graphText tv.
           getOne c (repo_url (job_repo job)) (job_pushref_id job) = Inr psh \<and>
           authorizedScopes
             = config_scopes c (repo_alias (job_repo job)) @ [notifyScope (push_user psh)] \<and>
           fetchGraph (lib_retry c) (lib_http_get c) graphUrl = Inr graphText \<and>
           scheduleTaskGroup (lib_safeLoad c) (lib_instantiate c) (lib_slugid_nice c)
             (newQueue c authorizedScopes) (repo_alias (job_repo job)) graphText tv
             authorizedScopes (config_errorTask c) = (r, s') \<and>
           tv_level tv = config_level c (repo_alias (job_repo job))"
  using assms
  apply (clarsimp simp: work_def Let_def bind_err_eq_Inr split: if_splits)
  apply (intro exI conjI)
    apply assumption
   apply assumption
  apply simp
  done

text \<open>
  Claim C10. A job that gets as far as constructing the queue client has appended
  \<^verbatim>\<open>queue:route:notify.email.<push user>.*\<close> to the registry's scopes of the project
  before the template is rendered and anything is submitted: the client is constructed
  with the extended list as its authorized scopes, \<^verbatim>\<open>scheduleTaskGroup\<close> receives the same
  list together with the fetched template, and every task handed to \<^verbatim>\<open>createTask\<close>
  carries the notify scope among its scopes (for a task whose declared scopes are not a
  string).
\<close>

theorem notify_scope:
  assumes "work c job = Inr (authorizedScopes, r, s')"
  shows "\<exists>psh graphUrl graphText tv.
           getOne c (repo_url (job_repo job)) (job_pushref_id job) = Inr psh \<and>
           authorizedScopes
             = config_scopes c (repo_alias (job_repo job)) @ [notifyScope (push_user psh)] \<and>
           fetchGraph (lib_retry c) (lib_http_get c) graphUrl = Inr graphText \<and>
           scheduleTaskGroup (lib_safeLoad c) (lib_instantiate c) (lib_slugid_nice c)
             (newQueue c authorizedScopes) (repo_alias (job_repo job)) graphText tv
             authorizedScopes (config_errorTask c) = (r, s') \<and>
           tv_level tv = config_level c (repo_alias (job_repo job)) \<and>
           (\<forall>tasks.
              renderedTasks (lib_safeLoad c) (lib_instantiate c) (repo_alias (job_repo job))
                graphText tv (config_errorTask c) = Inr tasks \<longrightarrow>
              (\<forall>i<length (calls s'). scopes_not_string (tasks ! i) \<longrightarrow>
                 (\<exists>us. getp (snd (calls s' ! i)) ''scopes'' = Inr (JArr us []) \<and>
                       JStr (notifyScope (push_user psh)) \<in> set us)))"
proof -
  from work_Inr [OF assms] obtain psh graphUrl graphText tv where
    g: "getOne c (repo_url (job_repo job)) (job_pushref_id job) = Inr psh"
    and a: "authorizedScopes
             = config_scopes c (repo_alias (job_repo job)) @ [notifyScope (push_user psh)]"
    and f: "fetchGraph (lib_retry c) (lib_http_get c) graphUrl = Inr graphText"
    and s: "scheduleTaskGroup (lib_safeLoad c) (lib_instantiate c) (lib_slugid_nice c)
             (newQueue c authorizedScopes) (repo_alias (job_repo job)) graphText tv
             authorizedScopes (config_errorTask c) = (r, s')"
    and l: "tv_level tv = config_level c (repo_alias (job_repo job))"
    by (elim exE conjE) (rule that, assumption+)
  have "\<exists>us. getp (snd (calls s' ! i)) ''scopes'' = Inr (JArr us []) \<and>
             JStr (notifyScope (push_user psh)) \<in> set us"
    if t: "renderedTasks (lib_safeLoad c) (lib_instantiate c) (repo_alias (job_repo job))
             graphText tv (config_errorTask c) = Inr tasks"
      and i: "i < length (calls s')" and n: "scopes_not_string (tasks ! i)" for tasks i
  proof -
    from scheduleTaskGroup_calls [OF t s] i obtain gid where
      "prepareTask (tasks ! i) authorizedScopes gid = Inr (snd (calls s' ! i))"
      by blast
    from prepareTask_project_scopes [OF this n] a show ?thesis
      by auto
  qed
  with g a f s l show ?thesis by blast
qed

theorem notify_scope_witness:
  "\<not> isl (work ex_collab ex_job) \<and>
   fst (projr (work ex_collab ex_job))
     = [''s'', ''queue:route:notify.email.user@example.com.*''] \<and>
   length (calls (snd (snd (projr (work ex_collab ex_job))))) = 3 \<and>
   scopes_not_string (ex_tasks ! 1) \<and>
   (\<exists>us. getp (snd (calls (snd (snd (projr (work ex_collab ex_job)))) ! 1)) ''scopes''
           = Inr (JArr us []) \<and>
         JStr ''queue:route:notify.email.user@example.com.*'' \<in> set us)"
proof -
  let ?out = "projr (work ex_collab ex_job)"
  have h0: "\<not> isl (work ex_collab ex_job)"
    by code_simp
  then have h1: "work ex_collab ex_job = Inr (fst ?out, fst (snd ?out), snd (snd ?out))"
    by simp
  have au: "fst ?out = [''s'', ''queue:route:notify.email.user@example.com.*'']"
    by code_simp
  have len: "length (calls (snd (snd ?out))) = 3"
    by code_simp
  have wf: "scopes_not_string (ex_tasks ! 1)"
    by code_simp
  have ft: "g = ex_template"
    if "fetchGraph (lib_retry ex_collab) (lib_http_get ex_collab) u = Inr g" for u g
    using that
    by (auto simp: ex_collab_def fetchGraph_def fetchAttempt_def split: if_splits)
  have rt: "renderedTasks (lib_safeLoad ex_collab) (lib_instantiate ex_collab) a ex_template tv
              (config_errorTask ex_collab) = Inr ex_tasks"
    if "tv_level tv = config_level ex_collab b" for a b tv
    using that
    by (simp add: Let_def show_int_def digit_char_def
        ex_collab_def renderedTasks_def renderOrFallback_def renderTemplate_def
        detectVersion_def readVersion_def ex_safeLoad_def lookup_def renderTemplateV0_def
        ex_instantiate_def ex_graph_def setSchedulerId_def ex_tasks_def)
  have us: "getOne ex_collab u i = Inr p \<Longrightarrow> push_user p = ''user@example.com''" for u i p
    by (auto simp: ex_collab_def)
  have ns: "notifyScope ''user@example.com'' = ''queue:route:notify.email.user@example.com.*''"
    by (simp add: notifyScope_def)
  from notify_scope [OF h1] obtain psh graphUrl graphText tv where
    o: "getOne ex_collab (repo_url (job_repo ex_job)) (job_pushref_id ex_job) = Inr psh"
    "fetchGraph (lib_retry ex_collab) (lib_http_get ex_collab) graphUrl = Inr graphText"
    "tv_level tv = config_level ex_collab (repo_alias (job_repo ex_job))"
    "\<forall>tasks.
        renderedTasks (lib_safeLoad ex_collab) (lib_instantiate ex_collab)
          (repo_alias (job_repo ex_job)) graphText tv (config_errorTask ex_collab) = Inr tasks \<longrightarrow>
        (\<forall>i<length (calls (snd (snd ?out))). scopes_not_string (tasks ! i) \<longrightarrow>
           (\<exists>us. getp (snd (calls (snd (snd ?out)) ! i)) ''scopes'' = Inr (JArr us []) \<and>
                 JStr (notifyScope (push_user psh)) \<in> set us))"
    by (elim exE conjE) (rule that, assumption+)
  from o(4) [rule_format, of ex_tasks 1] rt [OF o(3)] ft [OF o(2)] wf len us [OF o(1)] ns
  have "\<exists>us. getp (snd (calls (snd (snd ?out)) ! 1)) ''scopes'' = Inr (JArr us []) \<and>
          JStr ''queue:route:notify.email.user@example.com.*'' \<in> set us"
    by simp
  with h0 au len wf show ?thesis by blast
qed

section \<open>Version detection\<close>

lemma find_first_sublist: "find_first pat s \<noteq> None \<longleftrightarrow> sublist pat s"
  by (induction s) (auto simp: sublist_Cons_right)

lemma indexOf_sublist: "indexOf s pat 0 \<noteq> None \<longleftrightarrow> sublist pat s"
  using find_first_sublist [of pat s] by (simp add: indexOf_def)

text \<open>
  Claim C5. Version detection in \<^verbatim>\<open>renderTemplate\<close>: (1) the text is parsed and the
  \<^verbatim>\<open>version\<close> field of the result is read, and version 0 is rendered by
  \<^verbatim>\<open>renderTemplateV0\<close>; (2) when parsing fails and the text contains \<^verbatim>\<open>version: 0\<close>,
  the version is taken to be 0; (3) when parsing fails and the text does not contain it,
  the parse failure is the result; (4) any detected version other than the number 0 fails
  with the error \<^verbatim>\<open>Unrecognized .taskcluster.yml version\<close>.
\<close>

theorem version_detection:
  "(safeLoad template = Inr data \<and> getp data ''version'' = Inr (JNum 0) \<longrightarrow>
      renderTemplate safeLoad instantiate project_alias template tv
        = renderTemplateV0 instantiate project_alias template tv) \<and>
   (safeLoad template = Inl e \<and> sublist ''version: 0'' template \<longrightarrow>
      renderTemplate safeLoad instantiate project_alias template tv
        = renderTemplateV0 instantiate project_alias template tv) \<and>
   (safeLoad template = Inl e \<and> \<not> sublist ''version: 0'' template \<longrightarrow>
      renderTemplate safeLoad instantiate project_alias template tv = Inl e) \<and>
   (safeLoad template = Inr data \<and> getp data ''version'' = Inr v \<and> v \<noteq> JNum 0 \<longrightarrow>
      renderTemplate safeLoad instantiate project_alias template tv
        = Inl (Error ''Unrecognized .taskcluster.yml version''))"
  using indexOf_sublist [of template "''version: 0''"]
  by (auto simp: renderTemplate_def detectVersion_def readVersion_def)

theorem version_detection_witness:
  "ex_safeLoad ex_template = Inr ex_graph \<and>
   getp ex_graph ''version'' = Inr (JNum 0) \<and>
   renderTemplate ex_safeLoad ex_instantiate ''try'' ex_template ex_tv
     = Inr (JObj [(''version'', JNum 0), (''tasks'', JArr ex_tasks [])]) \<and>
   ex_safeLoad ''{version: 0, tasks: ['' = Inl ex_yaml_error \<and>
   sublist ''version: 0'' ''{version: 0, tasks: ['' \<and>
   renderTemplate ex_safeLoad ex_instantiate ''try'' ''{version: 0, tasks: ['' ex_tv
     = renderTemplateV0 ex_instantiate ''try'' ''{version: 0, tasks: ['' ex_tv \<and>
   ex_safeLoad ex_broken_template = Inl ex_yaml_error \<and>
   \<not> sublist ''version: 0'' ex_broken_template \<and>
   renderTemplate ex_safeLoad ex_instantiate ''try'' ex_broken_template ex_tv
     = Inl ex_yaml_error \<and>
   ex_safeLoad ex_v1_template = Inr ex_v1_graph \<and>
   getp ex_v1_graph ''version'' = Inr (JNum 1) \<and>
   renderTemplate ex_safeLoad ex_instantiate ''try'' ex_v1_template ex_tv
     = Inl (Error ''Unrecognized .taskcluster.yml version'')"
proof -
  have v0: "renderTemplateV0 ex_instantiate ''try'' ex_template ex_tv
              = Inr (JObj [(''version'', JNum 0), (''tasks'', JArr ex_tasks [])])"
    by code_simp
  have a1: "ex_safeLoad ex_template = Inr ex_graph"
    by (simp add: ex_safeLoad_def)
  have a2: "getp ex_graph ''version'' = Inr (JNum 0)"
    by (simp add: ex_graph_def lookup_def)
  have b1: "ex_safeLoad ''{version: 0, tasks: ['' = Inl ex_yaml_error"
    by code_simp
  have b2: "sublist ''version: 0'' ''{version: 0, tasks: [''"
    using indexOf_sublist [of "''{version: 0, tasks: [''" "''version: 0''"]
    by (simp add: indexOf_def)
  have c1: "ex_safeLoad ex_broken_template = Inl ex_yaml_error"
    by code_simp
  have c2: "\<not> sublist ''version: 0'' ex_broken_template"
    using indexOf_sublist [of ex_broken_template "''version: 0''"]
    by (simp add: indexOf_def ex_broken_template_def)
  have d1: "ex_safeLoad ex_v1_template = Inr ex_v1_graph"
    by code_simp
  have d2: "getp ex_v1_graph ''version'' = Inr (JNum 1)"
    by (simp add: ex_v1_graph_def lookup_def)
  note w1 = version_detection [of ex_safeLoad ex_template ex_graph
      ex_instantiate "''try''" ex_tv ex_yaml_error JUndefined]
  note w2 = version_detection [of ex_safeLoad "''{version: 0, tasks: [''" JNull
      ex_instantiate "''try''" ex_tv ex_yaml_error JUndefined]
  note w3 = version_detection [of ex_safeLoad ex_broken_template JNull
      ex_instantiate "''try''" ex_tv ex_yaml_error JUndefined]
  note w4 = version_detection [of ex_safeLoad ex_v1_template ex_v1_graph
      ex_instantiate "''try''" ex_tv ex_yaml_error "JNum 1"]
  from w1 a1 a2 v0 have r1: "renderTemplate ex_safeLoad ex_instantiate ''try'' ex_template ex_tv
     = Inr (JObj [(''version'', JNum 0), (''tasks'', JArr ex_tasks [])])"
    by simp
  from w2 b1 b2 have r2:
    "renderTemplate ex_safeLoad ex_instantiate ''try'' ''{version: 0, tasks: ['' ex_tv
     = renderTemplateV0 ex_instantiate ''try'' ''{version: 0, tasks: ['' ex_tv"
    by simp
  from w3 c1 c2 have r3:
    "renderTemplate ex_safeLoad ex_instantiate ''try'' ex_broken_template ex_tv
      = Inl ex_yaml_error"
    by simp
  from w4 d1 d2 have r4: "renderTemplate ex_safeLoad ex_instantiate ''try'' ex_v1_template ex_tv
      = Inl (Error ''Unrecognized .taskcluster.yml version'')"
    by simp
  from a1 a2 r1 b1 b2 r2 c1 c2 r3 d1 d2 r4 show ?thesis
    by (intro conjI)
qed

section \<open>Rendering a version-0 template\<close>

lemma mapM_err_all:
  assumes "\<forall>x\<in>set xs. \<exists>y. f x = Inr y"
  shows "\<exists>ys. mapM_err f xs = Inr ys \<and> length ys = length xs \<and>
              (\<forall>i<length xs. f (xs ! i) = Inr (ys ! i))"
  using assms
proof (induction xs)
  case Nil
  then show ?case by simp
next
  case (Cons x xs)
  then obtain y ys where y: "f x = Inr y" and ys: "mapM_err f xs = Inr ys"
    "length ys = length xs" "\<forall>i<length xs. f (xs ! i) = Inr (ys ! i)"
    by auto
  have "\<forall>i<length (x # xs). f ((x # xs) ! i) = Inr ((y # ys) ! i)"
    using y ys(3) by (auto simp: nth_Cons split: nat.splits)
  with y ys show ?case by simp
qed

lemma mapM_err_fail:
  assumes "x \<in> set xs" and "f x = Inl e"
  shows "\<exists>e'. mapM_err f xs = Inl e'"
  using assms
proof (induction xs)
  case Nil
  then show ?case by simp
next
  case (Cons a xs)
  show ?case
  proof (cases "f a")
    case (Inl e')
    then show ?thesis by simp
  next
    case (Inr y)
    with Cons show ?thesis by (cases "mapM_err f xs") auto
  qed
qed

lemma getp_put:
  assumes "getp v k = Inr x" and "x \<noteq> JUndefined"
  shows "getp (put v k y) k' = (if k' = k then Inr y else getp v k')"
  using assms by (cases v) (auto simp: lookup_update)

lemma setSchedulerId_wrapped:
  assumes "is_wrapped entry"
  shows "\<exists>inner inner' entry'. setSchedulerId sid entry = Inr entry' \<and>
           getp entry ''task'' = Inr inner \<and> getp entry' ''task'' = Inr inner' \<and>
           getp inner' ''schedulerId'' = Inr (JStr sid) \<and>
           (\<forall>k. k \<noteq> ''schedulerId'' \<longrightarrow> getp inner' k = getp inner k)"
proof -
  from assms obtain ps qs where e: "entry = JObj ps" and i: "lookup ps ''task'' = JObj qs"
    by (cases entry; cases "lookup (case entry of JObj ps \<Rightarrow> ps) ''task''")
       (auto simp: is_wrapped_def)
  show ?thesis
    by (simp add: e i setSchedulerId_def lookup_update)
qed

lemma setSchedulerId_bare:
  assumes "getp entry ''task'' = Inr JUndefined"
  shows "setSchedulerId sid entry = Inl (TypeError ''Cannot set property schedulerId of undefined'')"
  using assms by (simp add: setSchedulerId_def)

lemma taskDefinitionOf_forms:
  "(is_wrapped entry \<longrightarrow> taskDefinitionOf entry = getp entry ''task'') \<and>
   (getp entry ''task'' = Inr JUndefined \<longrightarrow> taskDefinitionOf entry = Inr entry)"
proof -
  have "taskDefinitionOf entry = getp entry ''task''" if "is_wrapped entry"
  proof -
    from that obtain v where "getp entry ''task'' = Inr v" "is_object v"
      by (auto simp: is_wrapped_def split: sum.splits)
    then show ?thesis by (cases v) (simp_all add: taskDefinitionOf_def)
  qed
  then show ?thesis by (auto simp: taskDefinitionOf_def)
qed

text \<open>
  Claim C6, as amended. A version-0 template is rendered by substituting the variables
  and then setting \<^verbatim>\<open>schedulerId\<close> to \<^verbatim>\<open>gecko-level-<level>\<close> on the definition of every
  entry of \<^verbatim>\<open>tasks\<close>, leaving the other fields of the definition as they are, provided
  every entry has the wrapped form \<^verbatim>\<open>{task: <definition>}\<close>. An entry with no \<^verbatim>\<open>task\<close>
  (a bare definition) makes the rendering fail. Both forms are accepted by the submitter's
  unwrapping step only.
\<close>

theorem renderTemplateV0_wrapped:
  assumes "instantiate template tv = Inr rt"
    and "getp rt ''tasks'' = Inr (JArr ts ps)"
  shows "((\<forall>t\<in>set ts. is_wrapped t) \<longrightarrow>
            (\<exists>ts'. renderTemplateV0 instantiate project_alias template tv
                     = Inr (put rt ''tasks'' (JArr ts' ps)) \<and>
                   length ts' = length ts \<and>
                   (\<forall>i<length ts. \<exists>inner inner'.
                      getp (ts ! i) ''task'' = Inr inner \<and>
                      getp (ts' ! i) ''task'' = Inr inner' \<and>
                      getp inner' ''schedulerId''
                        = Inr (JStr (''gecko-level-'' @ show_int (tv_level tv))) \<and>
                      (\<forall>k. k \<noteq> ''schedulerId'' \<longrightarrow> getp inner' k = getp inner k)))) \<and>
         ((\<exists>t\<in>set ts. getp t ''task'' = Inr JUndefined) \<longrightarrow>
            (\<exists>e. renderTemplateV0 instantiate project_alias template tv = Inl e)) \<and>
         (\<forall>entry. (is_wrapped entry \<longrightarrow> taskDefinitionOf entry = getp entry ''task'') \<and>
                  (getp entry ''task'' = Inr JUndefined \<longrightarrow> taskDefinitionOf entry = Inr entry))"
proof (intro conjI impI)
  let ?sid = "''gecko-level-'' @ show_int (tv_level tv)"
  have r: "renderTemplateV0 instantiate project_alias template tv
           = bind_err (mapM_err (setSchedulerId ?sid) ts) (\<lambda>ts'.
               Inr (put rt ''tasks'' (JArr ts' ps)))"
    using assms by (simp add: renderTemplateV0_def Let_def)
  {
    assume w: "\<forall>t\<in>set ts. is_wrapped t"
    then have "\<forall>t\<in>set ts. \<exists>y. setSchedulerId ?sid t = Inr y"
      using setSchedulerId_wrapped by blast
    from mapM_err_all [OF this] obtain ts' where ts': "mapM_err (setSchedulerId ?sid) ts = Inr ts'"
      "length ts' = length ts" "\<forall>i<length ts. setSchedulerId ?sid (ts ! i) = Inr (ts' ! i)"
      by blast
    have "\<exists>inner inner'.
            getp (ts ! i) ''task'' = Inr inner \<and> getp (ts' ! i) ''task'' = Inr inner' \<and>
            getp inner' ''schedulerId'' = Inr (JStr ?sid) \<and>
            (\<forall>k. k \<noteq> ''schedulerId'' \<longrightarrow> getp inner' k = getp inner k)"
      if "i < length ts" for i
    proof -
      from that w have "is_wrapped (ts ! i)" by simp
      from setSchedulerId_wrapped [OF this, of ?sid] ts'(3) that show ?thesis
        by auto
    qed
    with ts' r show "\<exists>ts'. renderTemplateV0 instantiate project_alias template tv
                     = Inr (put rt ''tasks'' (JArr ts' ps)) \<and>
                   length ts' = length ts \<and>
                   (\<forall>i<length ts. \<exists>inner inner'.
                      getp (ts ! i) ''task'' = Inr inner \<and>
                      getp (ts' ! i) ''task'' = Inr inner' \<and>
                      getp inner' ''schedulerId'' = Inr (JStr ?sid) \<and>
                      (\<forall>k. k \<noteq> ''schedulerId'' \<longrightarrow> getp inner' k = getp inner k))"
      by auto
  }
  {
    assume "\<exists>t\<in>set ts. getp t ''task'' = Inr JUndefined"
    then obtain t where "t \<in> set ts" "getp t ''task'' = Inr JUndefined" by blast
    from mapM_err_fail [of t ts "setSchedulerId ?sid", OF this(1) setSchedulerId_bare [OF this(2)]] r
    show "\<exists>e. renderTemplateV0 instantiate project_alias template tv = Inl e"
      by auto
  }
  show "\<forall>entry. (is_wrapped entry \<longrightarrow> taskDefinitionOf entry = getp entry ''task'') \<and>
                  (getp entry ''task'' = Inr JUndefined \<longrightarrow> taskDefinitionOf entry = Inr entry)"
    using taskDefinitionOf_forms by blast
qed

text \<open>
  The claim as stated fails on the version-0 template whose only entry is the bare
  definition \<^verbatim>\<open>{payload: {}}\<close>: no scheduler id is injected, the rendering throws.
\<close>

theorem bare_entry_counterexample:
  "ex_bare_template = ''{version: 0, tasks: [{payload: {}}]}'' \<and>
   ex_instantiate ex_bare_template ex_tv
     = Inr (JObj [(''version'', JNum 0), (''tasks'', JArr [JObj [(''payload'', JObj [])]] [])]) \<and>
   renderTemplateV0 ex_instantiate ''try'' ex_bare_template ex_tv
     = Inl (TypeError ''Cannot set property schedulerId of undefined'') \<and>
   renderTemplate ex_safeLoad ex_instantiate ''try'' ex_bare_template ex_tv
     = Inl (TypeError ''Cannot set property schedulerId of undefined'')"
  by code_simp

theorem renderTemplateV0_wrapped_witness:
  "ex_instantiate ex_template ex_tv = Inr ex_graph \<and>
   is_wrapped (JObj [(''task'', JObj [(''payload'', JObj [])])]) \<and>
   (\<exists>ts'. renderTemplateV0 ex_instantiate ''try'' ex_template ex_tv
            = Inr (JObj [(''version'', JNum 0), (''tasks'', JArr ts' [])]) \<and>
          (\<exists>inner'. getp (ts' ! 1) ''task'' = Inr inner' \<and>
                    getp inner' ''schedulerId'' = Inr (JStr ''gecko-level-3'') \<and>
                    getp inner' ''payload'' = Inr (JObj []))) \<and>
   ex_instantiate ex_bare_template ex_tv = Inr ex_bare_graph \<and>
   (\<exists>e. renderTemplateV0 ex_instantiate ''try'' ex_bare_template ex_tv = Inl e) \<and>
   taskDefinitionOf (JObj [(''payload'', JObj [])]) = Inr (JObj [(''payload'', JObj [])])"
proof -
  let ?ts = "[JObj [(''task'', JObj [(''taskGroupId'', JStr ''mine''),
                                         (''scopes'', JArr [JStr ''a'', JStr ''s'', JStr ''a''] [])])],
                  JObj [(''task'', JObj [(''payload'', JObj [])])],
                  JObj [(''task'', JObj [])]]"
  have h1: "ex_instantiate ex_template ex_tv = Inr ex_graph"
    by (simp add: ex_instantiate_def ex_safeLoad_def)
  have h2: "getp ex_graph ''tasks'' = Inr (JArr ?ts [])"
    by (simp add: ex_graph_def lookup_def)
  have w: "\<forall>t\<in>set ?ts. is_wrapped t"
    by (simp add: is_wrapped_def lookup_def)
  have w1: "is_wrapped (JObj [(''task'', JObj [(''payload'', JObj [])])])"
    by (simp add: is_wrapped_def lookup_def)
  have lv: "''gecko-level-'' @ show_int (tv_level ex_tv) = ''gecko-level-3''"
    by (simp add: ex_tv_def show_int_def digit_char_def)
  have pt: "put ex_graph ''tasks'' (JArr ts' []) = JObj [(''version'', JNum 0), (''tasks'', JArr ts' [])]"
    for ts'
    by (simp add: ex_graph_def)
  have g1: "getp (?ts ! 1) ''task'' = Inr (JObj [(''payload'', JObj [])])"
    by (simp add: lookup_def)
  have g2: "getp (JObj [(''payload'', JObj [])]) ''payload'' = Inr (JObj [])"
    by (simp add: lookup_def)
  note t = renderTemplateV0_wrapped [where instantiate = ex_instantiate
      and template = ex_template and tv = ex_tv and rt = ex_graph and ts = ?ts
      and ps = "[]" and project_alias = "''try''", OF h1 h2]
  from t w obtain ts' where ts': "renderTemplateV0 ex_instantiate ''try'' ex_template ex_tv
                     = Inr (put ex_graph ''tasks'' (JArr ts' []))"
      "\<forall>i<length ?ts. \<exists>inner inner'.
                      getp (?ts ! i) ''task'' = Inr inner \<and>
                      getp (ts' ! i) ''task'' = Inr inner' \<and>
                      getp inner' ''schedulerId''
                        = Inr (JStr (''gecko-level-'' @ show_int (tv_level ex_tv))) \<and>
                      (\<forall>k. k \<noteq> ''schedulerId'' \<longrightarrow> getp inner' k = getp inner k)"
    by blast
  from ts'(2) [rule_format, of 1] g1 obtain inner' where
    "getp (ts' ! 1) ''task'' = Inr inner'"
    "getp inner' ''schedulerId'' = Inr (JStr (''gecko-level-'' @ show_int (tv_level ex_tv)))"
    "\<forall>k. k \<noteq> ''schedulerId'' \<longrightarrow> getp inner' k = getp (JObj [(''payload'', JObj [])]) k"
    by auto
  with g2 lv have i: "\<exists>inner'. getp (ts' ! 1) ''task'' = Inr inner' \<and>
                    getp inner' ''schedulerId'' = Inr (JStr ''gecko-level-3'') \<and>
                    getp inner' ''payload'' = Inr (JObj [])"
    by auto
  have a: "\<exists>ts'. renderTemplateV0 ex_instantiate ''try'' ex_template ex_tv
            = Inr (JObj [(''version'', JNum 0), (''tasks'', JArr ts' [])]) \<and>
          (\<exists>inner'. getp (ts' ! 1) ''task'' = Inr inner' \<and>
                    getp inner' ''schedulerId'' = Inr (JStr ''gecko-level-3'') \<and>
                    getp inner' ''payload'' = Inr (JObj []))"
    using ts'(1) i pt by auto
  have c: "taskDefinitionOf (JObj [(''payload'', JObj [])]) = Inr (JObj [(''payload'', JObj [])])"
    using t by (simp add: lookup_def)
  have b1: "ex_instantiate ex_bare_template ex_tv = Inr ex_bare_graph"
    by code_simp
  have b2: "getp ex_bare_graph ''tasks'' = Inr (JArr [JObj [(''payload'', JObj [])]] [])"
    by (simp add: ex_bare_graph_def lookup_def)
  have b3: "\<exists>t\<in>set [JObj [(''payload'', JObj [])]]. getp t ''task'' = Inr JUndefined"
    by (simp add: lookup_def)
  note t' = renderTemplateV0_wrapped [where instantiate = ex_instantiate
      and template = ex_bare_template and tv = ex_tv and rt = ex_bare_graph
      and ts = "[JObj [(''payload'', JObj [])]]" and ps = "[]" and project_alias = "''try''",
      OF b1 b2]
  from t' b3 have b: "\<exists>e. renderTemplateV0 ex_instantiate ''try'' ex_bare_template ex_tv = Inl e"
    by blast
  from h1 w1 a b1 b c show ?thesis by blast
qed

section \<open>The error-template fallback\<close>

lemma errorFallback_result:
  assumes "instantiate errT tv = Inr rt"
    and "getp rt ''tasks'' = Inr (JArr (task0 # rest) ps)"
    and "getp task0 ''task'' = Inr task"
    and "getp task ''payload'' = Inr (JObj pps)"
    and "(if truthy (lookup pps ''env'') then lookup pps ''env'' else JObj []) = JObj eps"
  shows "errorFallback instantiate errT tv e
         = Inr (put rt ''tasks''
                 (JArr (put task0 ''task''
                         (put task ''payload''
                           (JObj (AList.update ''env''
                                    (JObj (AList.update ''ERROR_MSG'' (JStr (toString e)) eps))
                                    pps))) # rest) ps))"
  using assms by (simp add: errorFallback_def lookup_update)

lemma renderedTasks_fallback:
  assumes "renderTemplate safeLoad instantiate project_alias template tv = Inl e"
    and "instantiate errT tv = Inr rt"
    and "getp rt ''tasks'' = Inr (JArr (task0 # rest) ps)"
    and "getp task0 ''task'' = Inr task"
    and "getp task ''payload'' = Inr (JObj pps)"
    and "(if truthy (lookup pps ''env'') then lookup pps ''env'' else JObj []) = JObj eps"
  shows "\<exists>task0' task'.
           renderedTasks safeLoad instantiate project_alias template tv errT
             = Inr (task0' # rest) \<and>
           getp task0' ''task'' = Inr task' \<and>
           getp task' ''payload''
             = Inr (JObj (AList.update ''env''
                            (JObj (AList.update ''ERROR_MSG'' (JStr (toString e)) eps)) pps))"
proof -
  let ?payload = "JObj (AList.update ''env''
                    (JObj (AList.update ''ERROR_MSG'' (JStr (toString e)) eps)) pps)"
  have t: "task \<noteq> JUndefined"
    using assms(5) by auto
  have 1: "getp (put task ''payload'' ?payload) ''payload'' = Inr ?payload"
    using getp_put [OF assms(5)] by simp
  have 2: "getp (put task0 ''task'' (put task ''payload'' ?payload)) ''task''
           = Inr (put task ''payload'' ?payload)"
    using getp_put [OF assms(4) t] by simp
  have 3: "getp (put rt ''tasks'' X) ''tasks'' = Inr X" for X
    using getp_put [OF assms(3)] by simp
  show ?thesis
    using errorFallback_result [where instantiate = instantiate and errT = errT and tv = tv
        and rt = rt and ?task0.0 = task0 and rest = rest and ps = ps and task = task
        and pps = pps and eps = eps and e = e, OF assms(2-6)] assms(1) 1 2 3
    by (simp add: renderedTasks_def renderOrFallback_def)
qed

text \<open>
  Claim C4, as amended. When the rendering of the template fails with \<open>e\<close> and the error
  template, rendered with the same variables, yields a graph whose first entry has the form
  \<^verbatim>\<open>{task: {payload: {...}}}\<close> with an environment that is absent (falsy) or an object,
  the fallback succeeds: the graph to submit is that of the error template, with as many
  tasks as it defines, and \<^verbatim>\<open>payload.env.ERROR_MSG\<close> of its first task is
  \<^verbatim>\<open>e.toString()\<close>.
\<close>

theorem error_fallback:
  assumes "renderTemplate safeLoad instantiate project_alias template tv = Inl e"
    and "instantiate errorGraphTemplate tv = Inr rt"
    and "getp rt ''tasks'' = Inr (JArr (task0 # rest) ps)"
    and "getp task0 ''task'' = Inr task"
    and "getp task ''payload'' = Inr (JObj pps)"
    and "\<not> truthy (lookup pps ''env'') \<or> is_object (lookup pps ''env'')"
  shows "\<exists>task0'. renderedTasks safeLoad instantiate project_alias template tv
                     errorGraphTemplate = Inr (task0' # rest) \<and>
                  errorMsgOf task0' = Inr (JStr (toString e))"
proof -
  from assms(6) obtain eps where
    "(if truthy (lookup pps ''env'') then lookup pps ''env'' else JObj []) = JObj eps"
    by (cases "lookup pps ''env''") auto
  from renderedTasks_fallback [OF assms(1-5) this] show ?thesis
    by (auto simp: errorMsgOf_def lookup_update)
qed

text \<open>
  The claim as stated fails for an error template whose task is a bare definition: the
  handler throws while reaching for \<^verbatim>\<open>tasks[0].task.payload\<close>, the exception leaves
  \<^verbatim>\<open>scheduleTaskGroup\<close> and no task is created.
\<close>

theorem error_fallback_counterexample:
  "ex_broken_template = ''tasks: ['' \<and>
   ex_bare_template = ''{version: 0, tasks: [{payload: {}}]}'' \<and>
   renderTemplate ex_safeLoad ex_instantiate ''try'' ex_broken_template ex_tv
     = Inl ex_yaml_error \<and>
   ex_instantiate ex_bare_template ex_tv
     = Inr (JObj [(''version'', JNum 0), (''tasks'', JArr [JObj [(''payload'', JObj [])]] [])]) \<and>
   scheduleTaskGroup ex_safeLoad ex_instantiate ex_ids ex_accept ''try'' ex_broken_template
       ex_tv [''s''] ex_bare_template
     = (Some (TypeError ''Cannot read property payload of undefined''), init_state) \<and>
   calls init_state = []"
  by code_simp

theorem error_fallback_witness:
  "renderTemplate ex_safeLoad ex_instantiate ''try'' ex_broken_template ex_tv = Inl ex_yaml_error \<and>
   ex_instantiate ex_error_template ex_tv = Inr ex_error_graph \<and>
   (\<exists>task0'. renderedTasks ex_safeLoad ex_instantiate ''try'' ex_broken_template ex_tv
               ex_error_template = Inr [task0'] \<and>
             errorMsgOf task0'
               = Inr (JStr ''YAMLException: unexpected end of the stream within a flow collection''))"
proof -
  let ?pps = "[(''image'', JStr ''ubuntu''),
               (''env'', JObj [(''ERROR_MSG'', JStr ''set by the template''),
                               (''OWNER'', JStr ''user@example.com'')])]"
  let ?task = "JObj [(''payload'', JObj ?pps)]"
  let ?entry = "JObj [(''task'', ?task)]"
  have h1: "renderTemplate ex_safeLoad ex_instantiate ''try'' ex_broken_template ex_tv
              = Inl ex_yaml_error"
    by code_simp
  have h2: "ex_instantiate ex_error_template ex_tv = Inr ex_error_graph"
    by code_simp
  have h3: "getp ex_error_graph ''tasks'' = Inr (JArr (?entry # []) [])"
    by (simp add: ex_error_graph_def lookup_def)
  have h4: "getp ?entry ''task'' = Inr ?task"
    by (simp add: lookup_def)
  have h5: "getp ?task ''payload'' = Inr (JObj ?pps)"
    by (simp add: lookup_def)
  have h6: "\<not> truthy (lookup ?pps ''env'') \<or> is_object (lookup ?pps ''env'')"
    by (simp add: lookup_def)
  have s: "toString ex_yaml_error = ''YAMLException: unexpected end of the stream within a flow collection''"
    by (simp add: ex_yaml_error_def)
  from error_fallback [OF h1 h2 h3 h4 h5 h6] s h1 h2 show ?thesis
    by simp
qed

text \<open>
  Claim C8, as amended. In the error-template fallback an empty environment is created
  only when the rendered error task has none (\<^verbatim>\<open>env\<close> absent or falsy). The field
  \<^verbatim>\<open>ERROR_MSG\<close> is then set to \<^verbatim>\<open>e.toString()\<close> in every case, replacing a value the
  environment already held; every other field of the environment, and every other field
  of the payload, is left as rendered.
\<close>

theorem error_msg_overwritten:
  assumes "renderTemplate safeLoad instantiate project_alias template tv = Inl e"
    and "instantiate errorGraphTemplate tv = Inr rt"
    and "getp rt ''tasks'' = Inr (JArr (task0 # rest) ps)"
    and "getp task0 ''task'' = Inr task"
    and "getp task ''payload'' = Inr (JObj pps)"
    and "\<not> truthy (lookup pps ''env'') \<or> is_object (lookup pps ''env'')"
  shows "\<exists>task0' task' payload' env'.
           renderedTasks safeLoad instantiate project_alias template tv errorGraphTemplate
             = Inr (task0' # rest) \<and>
           getp task0' ''task'' = Inr task' \<and>
           getp task' ''payload'' = Inr payload' \<and>
           getp payload' ''env'' = Inr env' \<and>
           getp env' ''ERROR_MSG'' = Inr (JStr (toString e)) \<and>
           (\<forall>k. k \<noteq> ''ERROR_MSG'' \<longrightarrow>
                getp env' k = (if truthy (lookup pps ''env'') then getp (lookup pps ''env'') k
                               else Inr JUndefined)) \<and>
           (\<forall>k. k \<noteq> ''env'' \<longrightarrow> getp payload' k = Inr (lookup pps k))"
proof -
  from assms(6) obtain eps where
    eps: "(if truthy (lookup pps ''env'') then lookup pps ''env'' else JObj []) = JObj eps"
    by (cases "lookup pps ''env''") auto
  have "getp (JObj eps) k
          = (if truthy (lookup pps ''env'') then getp (lookup pps ''env'') k else Inr JUndefined)"
    for k
    using eps by (auto simp: lookup_def split: if_splits)
  with renderedTasks_fallback [OF assms(1-5) eps] show ?thesis
    by (auto simp: lookup_update)
qed

text \<open>
  The claim as stated fails for an error template whose task sets \<^verbatim>\<open>ERROR_MSG\<close> itself:
  the value is replaced by the failure's string.
\<close>

theorem error_msg_counterexample:
  "ex_instantiate ex_error_template ex_tv
     = Inr (JObj [(''tasks'',
            JArr [JObj [(''task'',
                         JObj [(''payload'',
                                JObj [(''image'', JStr ''ubuntu''),
                                      (''env'', JObj [(''ERROR_MSG'', JStr ''set by the template''),
                                                      (''OWNER'', JStr ''user@example.com'')])])])]]
              [])]) \<and>
   renderedTasks ex_safeLoad ex_instantiate ''try'' ex_broken_template ex_tv ex_error_template
     = Inr [JObj [(''task'',
                   JObj [(''payload'',
                          JObj [(''image'', JStr ''ubuntu''),
                                (''env'',
                                 JObj [(''ERROR_MSG'',
                                        JStr ''YAMLException: unexpected end of the stream within a flow collection''),
                                       (''OWNER'', JStr ''user@example.com'')])])])]]"
  by code_simp

theorem error_msg_overwritten_witness:
  "renderTemplate ex_safeLoad ex_instantiate ''try'' ex_broken_template ex_tv = Inl ex_yaml_error \<and>
   (\<exists>task0' task' payload' env'.
      renderedTasks ex_safeLoad ex_instantiate ''try'' ex_broken_template ex_tv ex_error_template
        = Inr [task0'] \<and>
      getp task0' ''task'' = Inr task' \<and>
      getp task' ''payload'' = Inr payload' \<and>
      getp payload' ''env'' = Inr env' \<and>
      getp env' ''ERROR_MSG'' = Inr (JStr ''YAMLException: unexpected end of the stream within a flow collection'') \<and>
      getp env' ''OWNER'' = Inr (JStr ''user@example.com'') \<and>
      getp payload' ''image'' = Inr (JStr ''ubuntu''))"
  (is "_ \<and> ?ex")
proof -
  let ?env = "JObj [(''ERROR_MSG'', JStr ''set by the template''),
                    (''OWNER'', JStr ''user@example.com'')]"
  let ?pps = "[(''image'', JStr ''ubuntu''), (''env'', ?env)]"
  let ?task = "JObj [(''payload'', JObj ?pps)]"
  let ?entry = "JObj [(''task'', ?task)]"
  have h1: "renderTemplate ex_safeLoad ex_instantiate ''try'' ex_broken_template ex_tv
              = Inl ex_yaml_error"
    by code_simp
  have h2: "ex_instantiate ex_error_template ex_tv = Inr ex_error_graph"
    by code_simp
  have h3: "getp ex_error_graph ''tasks'' = Inr (JArr (?entry # []) [])"
    by (simp add: ex_error_graph_def lookup_def)
  have h4: "getp ?entry ''task'' = Inr ?task"
    by (simp add: lookup_def)
  have h5: "getp ?task ''payload'' = Inr (JObj ?pps)"
    by (simp add: lookup_def)
  have h6: "\<not> truthy (lookup ?pps ''env'') \<or> is_object (lookup ?pps ''env'')"
    by (simp add: lookup_def)
  have s: "toString ex_yaml_error = ''YAMLException: unexpected end of the stream within a flow collection''"
    by (simp add: ex_yaml_error_def)
  have e: "lookup ?pps ''env'' = ?env" "lookup ?pps ''image'' = JStr ''ubuntu''"
    "getp ?env ''OWNER'' = Inr (JStr ''user@example.com'')"
    by (simp_all add: lookup_def)
  from error_msg_overwritten [OF h1 h2 h3 h4 h5 h6] obtain task0' task' payload' env' where
    r: "renderedTasks ex_safeLoad ex_instantiate ''try'' ex_broken_template ex_tv ex_error_template
        = Inr [task0']"
      "getp task0' ''task'' = Inr task'"
      "getp task' ''payload'' = Inr payload'"
      "getp payload' ''env'' = Inr env'"
      "getp env' ''ERROR_MSG'' = Inr (JStr (toString ex_yaml_error))"
    and f: "\<forall>k. k \<noteq> ''ERROR_MSG'' \<longrightarrow>
                getp env' k = (if truthy (lookup ?pps ''env'') then getp (lookup ?pps ''env'') k
                               else Inr JUndefined)"
      "\<forall>k. k \<noteq> ''env'' \<longrightarrow> getp payload' k = Inr (lookup ?pps k)"
    by (elim exE conjE) (rule that, assumption+)
  from f(1) [rule_format, of "''OWNER''"] e have o: "getp env' ''OWNER'' = Inr (JStr ''user@example.com'')"
    by simp
  from f(2) [rule_format, of "''image''"] e have i: "getp payload' ''image'' = Inr (JStr ''ubuntu'')"
    by simp
  from r o i s have "?ex" by (intro exI conjI) simp_all
  with h1 show ?thesis by (rule conjI)
qed

section \<open>The URL resolver\<close>

lemma split_slash_no_slash: "\<forall>seg\<in>set (split_slash s). CHR ''/'' \<notin> set seg"
  by (induction s) (auto split: list.splits)

lemma normalizeArray_segments:
  assumes "\<forall>a\<in>set acc. Q a"
    and "\<forall>p\<in>set ps. p \<noteq> [] \<and> p \<noteq> ''.'' \<and> p \<noteq> ''..'' \<longrightarrow> Q p"
  shows "\<forall>x\<in>set (normalizeArray ps acc). Q x"
  using assms
proof (induction ps arbitrary: acc)
  case Nil
  then show ?case by simp
next
  case (Cons p ps)
  have tl: "\<forall>a\<in>set (tl acc). Q a"
    using Cons.prems(1) by (cases acc) auto
  from Cons.prems(2) have rest: "\<forall>p\<in>set ps. p \<noteq> [] \<and> p \<noteq> ''.'' \<and> p \<noteq> ''..'' \<longrightarrow> Q p"
    by simp
  show ?case
  proof (cases "p = [] \<or> p = ''.''")
    case True
    then show ?thesis using Cons.IH [OF Cons.prems(1) rest] by auto
  next
    case False
    show ?thesis
    proof (cases "p = ''..''")
      case True
      then show ?thesis using Cons.IH [OF tl rest] by simp
    next
      case ndd: False
      with False Cons.prems have "\<forall>a\<in>set (p # acc). Q a" by simp
      from Cons.IH [OF this rest] False ndd show ?thesis by simp
    qed
  qed
qed

lemma join_slash_concat:
  "segs \<noteq> [] \<Longrightarrow> CHR ''/'' # join_slash segs = concat (map ((#) CHR ''/'') segs)"
  by (induction segs rule: join_slash.induct) simp_all

lemma resolved_path:
  "(if CHR ''/'' # join_slash segs = ''/'' then [] else CHR ''/'' # join_slash segs)
     = concat (map ((#) CHR ''/'') segs)"
  if "\<forall>seg\<in>set segs. seg \<noteq> []"
proof (cases segs)
  case Nil
  then show ?thesis by simp
next
  case (Cons a list)
  then have "join_slash segs \<noteq> []"
    using that by (cases list) auto
  then show ?thesis using join_slash_concat [of segs] Cons by simp
qed

text \<open>
  Claim C9. For a URL that parses with a path and a host, \<^verbatim>\<open>parseUrl\<close> returns
  \<^verbatim>\<open>{path, host}\<close> where \<open>path\<close> is the normalised path: its segments, each preceded by
  a slash, with no empty, \<^verbatim>\<open>.\<close> or \<^verbatim>\<open>..\<close> segment left, hence the empty string for the
  root; and \<open>host\<close> is the scheme as parsed (\<^verbatim>\<open>protocol\<close>, which ends with its colon)
  followed by \<^verbatim>\<open>//\<close> and the parsed host, the scheme defaulting to the text \<^verbatim>\<open>http\<close>
  when the URL has none.
\<close>

theorem parseUrl_parts:
  assumes "parsed_path (url_parse u) = Some p"
    and "parsed_host (url_parse u) = Some h"
  shows "\<exists>segs.
           parseUrl url_parse cwd u
             = Inr \<lparr>path = concat (map ((#) CHR ''/'') segs),
                    host = (case parsed_protocol (url_parse u) of
                              None \<Rightarrow> ''http''
                            | Some pr \<Rightarrow> if pr = [] then ''http'' else pr) @ ''//'' @ h\<rparr> \<and>
           segs = normalizeArray
                    (split_slash (if p \<noteq> [] \<and> hd p = CHR ''/'' then p else cwd @ ''/'' @ p)) [] \<and>
           (\<forall>seg\<in>set segs. seg \<noteq> [] \<and> seg \<noteq> ''.'' \<and> seg \<noteq> ''..'' \<and> CHR ''/'' \<notin> set seg)"
proof -
  let ?full = "if p \<noteq> [] \<and> hd p = CHR ''/'' then p else cwd @ ''/'' @ p"
  let ?segs = "normalizeArray (split_slash ?full) []"
  have good: "\<forall>seg\<in>set ?segs. seg \<noteq> [] \<and> seg \<noteq> ''.'' \<and> seg \<noteq> ''..'' \<and> CHR ''/'' \<notin> set seg"
    by (rule normalizeArray_segments) (use split_slash_no_slash [of ?full] in auto)
  then have "\<forall>seg\<in>set ?segs. seg \<noteq> []" by blast
  from resolved_path [OF this] assms
  have "parseUrl url_parse cwd u
             = Inr \<lparr>path = concat (map ((#) CHR ''/'') ?segs),
                    host = (case parsed_protocol (url_parse u) of
                              None \<Rightarrow> ''http''
                            | Some pr \<Rightarrow> if pr = [] then ''http'' else pr) @ ''//'' @ h\<rparr>"
    by (simp add: parseUrl_def path_resolve_def Let_def)
  with good show ?thesis by blast
qed

theorem parseUrl_parts_witness:
  "parsed_path (ex_url_parse ''https://hg.mozilla.org/try/'') = Some ''/try/'' \<and>
   parsed_host (ex_url_parse ''https://hg.mozilla.org/try/'') = Some ''hg.mozilla.org'' \<and>
   parseUrl ex_url_parse ''/home/worker'' ''https://hg.mozilla.org/try/''
     = Inr \<lparr>path = ''/try'', host = ''https://hg.mozilla.org''\<rparr> \<and>
   parseUrl ex_url_parse ''/home/worker'' ''https://hg.mozilla.org/''
     = Inr \<lparr>path = '''', host = ''https://hg.mozilla.org''\<rparr>"
proof -
  have a1: "parsed_path (ex_url_parse ''https://hg.mozilla.org/try/'') = Some ''/try/''"
    and a2: "parsed_host (ex_url_parse ''https://hg.mozilla.org/try/'') = Some ''hg.mozilla.org''"
    and b1: "parsed_path (ex_url_parse ''https://hg.mozilla.org/'') = Some ''/''"
    and b2: "parsed_host (ex_url_parse ''https://hg.mozilla.org/'') = Some ''hg.mozilla.org''"
    by (simp_all add: ex_url_parse_def)
  have pa: "parsed_protocol (ex_url_parse ''https://hg.mozilla.org/try/'') = Some ''https:''"
    and pb: "parsed_protocol (ex_url_parse ''https://hg.mozilla.org/'') = Some ''https:''"
    by (simp_all add: ex_url_parse_def)
  have sa: "normalizeArray (split_slash ''/try/'') [] = [''try'']"
    and sb: "normalizeArray (split_slash ''/'') [] = []"
    by simp_all
  from parseUrl_parts [where url_parse = ex_url_parse and u = "''https://hg.mozilla.org/try/''"
      and cwd = "''/home/worker''", OF a1 a2] pa sa
  have ra: "parseUrl ex_url_parse ''/home/worker'' ''https://hg.mozilla.org/try/''
     = Inr \<lparr>path = ''/try'', host = ''https://hg.mozilla.org''\<rparr>"
    by simp
  from parseUrl_parts [where url_parse = ex_url_parse and u = "''https://hg.mozilla.org/''"
      and cwd = "''/home/worker''", OF b1 b2] pb sb
  have rb: "parseUrl ex_url_parse ''/home/worker'' ''https://hg.mozilla.org/''
     = Inr \<lparr>path = '''', host = ''https://hg.mozilla.org''\<rparr>"
    by simp
  from a1 a2 ra rb show ?thesis by simp
qed

text \<open>
  Without a scheme the prefix is the default text as written on line 38, which has no
  colon.
\<close>

lemma parseUrl_default_scheme:
  assumes "parseUrl url_parse cwd u = Inr parts"
    and "parsed_protocol (url_parse u) = None"
    and "parsed_host (url_parse u) = Some h"
  shows "host parts = ''http//'' @ h"
  using assms by (auto simp: parseUrl_def Let_def bind_err_eq_Inr)

section \<open>The template fetcher\<close>

text \<open>
  What the file itself decides about a fetch: every attempt is made with the request
  timeout of 30000 ms; the retry wrapper is handed the interval 5000 under the key
  \<^verbatim>\<open>interval\<close> and the count 2 under the key \<^verbatim>\<open>retires\<close>; and when the wrapper gives
  up with \<open>e\<close>, the failure is a new error whose message names the URL and carries
  the stack of \<open>e\<close>. How many attempts the wrapper makes is not decided here.
\<close>

lemma fetchGraph_failure:
  assumes "u \<noteq> []"
    and "retry [(''interval'', 5000), (''retires'', 2)] (fetchAttempt http_get u) = Inl e"
  shows "fetchGraph retry http_get u
         = Inl (Error (''Could not fetch graph at '' @ u @ [CHR 0x0A] @ '' '' @ stack e))"
  using assms by (simp add: fetchGraph_def GRAPH_INTERVAL_def GRAPH_RETIRES_def)

lemma fetchAttempt_timeout:
  "fetchAttempt http_get u n
   = bind_err (http_get u 30000 n) (\<lambda>res.
       case res_error res of Some e \<Rightarrow> Inl e | None \<Rightarrow> Inr (res_text res))"
  by (simp add: fetchAttempt_def GRAPH_REQ_TIMEOUT_def)

end
